theory Spec2Isabelle
  imports Main "HOL-Library.Char_ord" "HOL-Library.List_Lexorder"
begin

section \<open>vCardConvert: the vCard field parser and the column ordering\<close>

text \<open>
  A shallow embedding of \<^verbatim>\<open>src/vCardConvert.py\<close>. Python strings are modelled as
  \<^typ>\<open>string\<close>, read as ASCII text: case mapping, whitespace, digits and line boundaries
  are those of Python on code points below 128. Every \<^verbatim>\<open>IndexError\<close> (a list or string
  index out of range) and \<^verbatim>\<open>AttributeError\<close> (\<^verbatim>\<open>match.group\<close> on a failed match) of the
  source is a value \<open>Inl\<close> of the result; nothing in \<^verbatim>\<open>parse_vcard\<close> catches them.
  The order on strings is the lexicographic order on character codes, which is the
  order of Python's \<^verbatim>\<open>sorted\<close> on such strings.
\<close>

subsection \<open>Python string operations\<close>

datatype py_error = IndexError | AttributeError

definition nth_err :: "'a list \<Rightarrow> nat \<Rightarrow> py_error + 'a" where
  "nth_err xs i = (if i < length xs then Inr (xs ! i) else Inl IndexError)"

definition startswith :: "string \<Rightarrow> string \<Rightarrow> bool" where
  "startswith s p = (take (length p) s = p)"

definition endswith :: "string \<Rightarrow> string \<Rightarrow> bool" where
  "endswith s p = (length p \<le> length s \<and> drop (length s - length p) s = p)"

text \<open>\<^verbatim>\<open>sub in s\<close> on strings.\<close>

fun contains :: "string \<Rightarrow> string \<Rightarrow> bool" where
  "contains [] sub = (sub = [])"
| "contains (x # xs) sub = (startswith (x # xs) sub \<or> contains xs sub)"

definition newline :: char where
  "newline = CHR 0x0A"

text \<open>The characters \<^verbatim>\<open>str.strip()\<close> removes: tab, LF, VT, FF, CR, FS, GS, RS, US, space.\<close>

definition is_space :: "char \<Rightarrow> bool" where
  "is_space c = (c \<in> set [CHR 0x09, CHR 0x0A, CHR 0x0B, CHR 0x0C, CHR 0x0D,
                           CHR 0x1C, CHR 0x1D, CHR 0x1E, CHR 0x1F, CHR 0x20])"

definition strip :: "string \<Rightarrow> string" where
  "strip s = rev (dropWhile is_space (rev (dropWhile is_space s)))"

definition ascii_lower :: string where
  "ascii_lower = ''abcdefghijklmnopqrstuvwxyz''"

definition ascii_upper :: string where
  "ascii_upper = ''ABCDEFGHIJKLMNOPQRSTUVWXYZ''"

definition is_upper :: "char \<Rightarrow> bool" where
  "is_upper c = (c \<in> set ascii_upper)"

definition is_alpha :: "char \<Rightarrow> bool" where
  "is_alpha c = (c \<in> set ascii_lower \<or> c \<in> set ascii_upper)"

definition is_digit :: "char \<Rightarrow> bool" where
  "is_digit c = (c \<in> set ''0123456789'')"

definition to_upper :: "char \<Rightarrow> char" where
  "to_upper c = (case map_of (zip ascii_lower ascii_upper) c of Some u \<Rightarrow> u | None \<Rightarrow> c)"

definition to_lower :: "char \<Rightarrow> char" where
  "to_lower c = (case map_of (zip ascii_upper ascii_lower) c of Some l \<Rightarrow> l | None \<Rightarrow> c)"

definition lower :: "string \<Rightarrow> string" where
  "lower s = map to_lower s"

definition capitalize :: "string \<Rightarrow> string" where
  "capitalize s = (case s of [] \<Rightarrow> [] | c # cs \<Rightarrow> to_upper c # map to_lower cs)"

text \<open>
  \<^verbatim>\<open>s.split(sep)\<close> for a non-empty separator: the pieces between the occurrences of
  \<open>sep\<close>, found left to right without overlap. The counter is the number of characters of
  the current occurrence still to be skipped.
\<close>

fun split_aux :: "string \<Rightarrow> nat \<Rightarrow> string \<Rightarrow> string list" where
  "split_aux sep k [] = [[]]"
| "split_aux sep k (x # xs) =
     (if 0 < k then split_aux sep (k - 1) xs
      else if startswith (x # xs) sep then [] # split_aux sep (length sep - 1) xs
      else (case split_aux sep 0 xs of [] \<Rightarrow> [[x]] | y # ys \<Rightarrow> (x # y) # ys))"

definition split :: "string \<Rightarrow> string \<Rightarrow> string list" where
  "split s sep = split_aux sep 0 s"

text \<open>\<^verbatim>\<open>s.split(c, 1)\<close> for a one-character separator: at most one cut, at the first \<open>c\<close>.\<close>

definition split1 :: "string \<Rightarrow> char \<Rightarrow> string list" where
  "split1 s c =
     (if c \<in> set s then [takeWhile (\<lambda>x. x \<noteq> c) s, tl (dropWhile (\<lambda>x. x \<noteq> c) s)]
      else [s])"

text \<open>
  \<^verbatim>\<open>s.splitlines()\<close>: a line ends at LF, CR, CR LF, VT, FF, FS, GS or RS; the
  terminators are dropped and a final terminator opens no further line.
\<close>

definition is_linebreak :: "char \<Rightarrow> bool" where
  "is_linebreak c =
     (c \<in> set [CHR 0x0A, CHR 0x0B, CHR 0x0C, CHR 0x0D, CHR 0x1C, CHR 0x1D, CHR 0x1E])"

fun splitlines_aux :: "string \<Rightarrow> string \<Rightarrow> string list" where
  "splitlines_aux cur [] = (if cur = [] then [] else [cur])"
| "splitlines_aux cur (c # cs) =
     (if is_linebreak c then
        (case cs of
           d # ds \<Rightarrow> if c = CHR 0x0D \<and> d = CHR 0x0A then cur # splitlines_aux [] ds
                     else cur # splitlines_aux [] cs
         | [] \<Rightarrow> cur # splitlines_aux [] cs)
      else splitlines_aux (cur @ [c]) cs)"

definition splitlines :: "string \<Rightarrow> string list" where
  "splitlines s = splitlines_aux [] s"

text \<open>
  \<^verbatim>\<open>str(n)\<close> and \<^verbatim>\<open>int(s)\<close> on decimal digits. The number read is a natural number of
  any size: the bound that recent interpreters put on the digits of \<^verbatim>\<open>int\<close> (4300 unless
  configured) is not part of the model.
\<close>

definition digit_char :: "nat \<Rightarrow> char" where
  "digit_char d = ''0123456789abcdef'' ! d"

fun str_nat :: "nat \<Rightarrow> string" where
  "str_nat n = (if n < 10 then [digit_char n] else str_nat (n div 10) @ [digit_char (n mod 10)])"

declare str_nat.simps [simp del]

definition digit_val :: "char \<Rightarrow> nat" where
  "digit_val c = (case map_of (zip ''0123456789'' [0 ..< 10]) c of Some d \<Rightarrow> d | None \<Rightarrow> 0)"

definition int_of_digits :: "string \<Rightarrow> nat" where
  "int_of_digits s = foldl (\<lambda>n c. 10 * n + digit_val c) 0 s"

text \<open>
  \<^verbatim>\<open>repr(s)\<close> of a string, as \<^verbatim>\<open>str()\<close> of a list prints its elements: double quotes when
  the string holds a single quote and no double quote, single quotes otherwise; the quote
  and the backslash escaped; tab, LF and CR as \<^verbatim>\<open>\t \n \r\<close>; any other control
  character as \<^verbatim>\<open>\xNN\<close>.
\<close>

definition repr_char :: "char \<Rightarrow> char \<Rightarrow> string" where
  "repr_char q c =
     (if c = q \<or> c = CHR 0x5C then [CHR 0x5C, c]
      else if c = CHR 0x09 then [CHR 0x5C, CHR ''t'']
      else if c = CHR 0x0A then [CHR 0x5C, CHR ''n'']
      else if c = CHR 0x0D then [CHR 0x5C, CHR ''r'']
      else if c < CHR 0x20 \<or> c = CHR 0x7F then
        [CHR 0x5C, CHR ''x'', digit_char (of_char c div 16), digit_char (of_char c mod 16)]
      else [c])"

definition repr_str :: "string \<Rightarrow> string" where
  "repr_str s =
     (let q = (if CHR 0x27 \<in> set s \<and> CHR 0x22 \<notin> set s then CHR 0x22 else CHR 0x27)
      in [q] @ concat (map (repr_char q) s) @ [q])"

fun join :: "string \<Rightarrow> string list \<Rightarrow> string" where
  "join sep [] = []"
| "join sep [x] = x"
| "join sep (x # y # ys) = x @ sep @ join sep (y # ys)"

definition str_list :: "string list \<Rightarrow> string" where
  "str_list xs = ''['' @ join '', '' (map repr_str xs) @ '']''"

subsection \<open>The regular expressions\<close>

text \<open>
  Each pattern of the table \<^verbatim>\<open>regex\<close> is written out as the matcher it denotes under
  \<^verbatim>\<open>re.match\<close>. In every pattern each repetition is followed by a character it cannot
  match, so the greedy match is the only one and no backtracking is lost.

  \<^verbatim>\<open>(.+)$\<close> at the end of a pattern: \<open>.\<close> matches no LF, and \<open>$\<close> matches at the end of
  the string or just before one final LF.
\<close>

definition dot_plus_end :: "string \<Rightarrow> string option" where
  "dot_plus_end s =
     (let g = (if s \<noteq> [] \<and> last s = newline then butlast s else s)
      in if g \<noteq> [] \<and> newline \<notin> set g then Some g else None)"

text \<open>\<^verbatim>\<open>^item(\d+)\.(.+)$\<close>, giving the groups 1 and 2.\<close>

definition vcard_grouped_field :: "string \<Rightarrow> (string \<times> string) option" where
  "vcard_grouped_field s =
     (if startswith s ''item'' then
        (let ds = takeWhile is_digit (drop 4 s); r = dropWhile is_digit (drop 4 s)
         in if ds \<noteq> [] \<and> startswith r ''.''
            then map_option (Pair ds) (dot_plus_end (drop 1 r)) else None)
      else None)"

text \<open>\<^verbatim>\<open>^_\$!<([^>]+)>!\$_$\<close>, giving group 1.\<close>

definition vcard_extra_label :: "string \<Rightarrow> string option" where
  "vcard_extra_label s =
     (if startswith s ''_$!<'' then
        (let g = takeWhile (\<lambda>c. c \<noteq> CHR ''>'') (drop 4 s);
             r = dropWhile (\<lambda>c. c \<noteq> CHR ''>'') (drop 4 s)
         in if g \<noteq> [] \<and> (r = ''>!$_'' \<or> r = ''>!$_'' @ [newline]) then Some g else None)
      else None)"

text \<open>\<^verbatim>\<open>^type=([A-Z]+)\<close>, giving group 1.\<close>

definition vcard_comm_type_single :: "string \<Rightarrow> string option" where
  "vcard_comm_type_single s =
     (if startswith s ''type='' then
        (let g = takeWhile is_upper (drop 5 s) in if g \<noteq> [] then Some g else None)
      else None)"

text \<open>\<^verbatim>\<open>^type=([a-zA-Z]+):(.+)$\<close>, giving the groups 1 and 2.\<close>

definition vcard_comm_type_compound :: "string \<Rightarrow> (string \<times> string) option" where
  "vcard_comm_type_compound s =
     (if startswith s ''type='' then
        (let g = takeWhile is_alpha (drop 5 s); r = dropWhile is_alpha (drop 5 s)
         in if g \<noteq> [] \<and> startswith r '':''
            then map_option (Pair g) (dot_plus_end (drop 1 r)) else None)
      else None)"

text \<open>\<^verbatim>\<open>^type=([a-zA-Z]+)(?:;type=pref)?:(.+)$\<close>, giving the groups 1 and 2.\<close>

definition vcard_comm_type_pref :: "string \<Rightarrow> (string \<times> string) option" where
  "vcard_comm_type_pref s =
     (if startswith s ''type='' then
        (let g = takeWhile is_alpha (drop 5 s); r = dropWhile is_alpha (drop 5 s);
             r' = (if startswith r '';type=pref'' then drop 10 r else r)
         in if g \<noteq> [] \<and> startswith r' '':''
            then map_option (Pair g) (dot_plus_end (drop 1 r')) else None)
      else None)"

text \<open>
  \<^verbatim>\<open>.*X-APPLE-OMIT-YEAR=\d+:\d+-\<close> under \<^verbatim>\<open>sub("", s)\<close>. \<open>omit_year_end t\<close> is what follows
  a match of \<^verbatim>\<open>X-APPLE-OMIT-YEAR=\d+:\d+-\<close> at the start of \<open>t\<close>. Within one line (\<open>.\<close>
  matches no LF) the greedy \<^verbatim>\<open>.*\<close> reaches back from the start of the line to the last
  place where the marker matches, so the line loses everything up to the end of its last
  marker; a line without a marker is kept.
\<close>

definition omit_year_end :: "string \<Rightarrow> string option" where
  "omit_year_end t =
     (if startswith t ''X-APPLE-OMIT-YEAR='' then
        (let d1 = takeWhile is_digit (drop 18 t); r1 = dropWhile is_digit (drop 18 t);
             d2 = takeWhile is_digit (drop 1 r1); r2 = dropWhile is_digit (drop 1 r1)
         in if d1 \<noteq> [] \<and> startswith r1 '':'' \<and> d2 \<noteq> [] \<and> startswith r2 ''-''
            then Some (drop 1 r2) else None)
      else None)"

fun last_omit_year :: "string \<Rightarrow> string option" where
  "last_omit_year [] = None"
| "last_omit_year (x # xs) =
     (case last_omit_year xs of
        Some r \<Rightarrow> Some r
      | None \<Rightarrow> omit_year_end (x # xs))"

definition sub_yearless_line :: "string \<Rightarrow> string" where
  "sub_yearless_line l = (case last_omit_year l of Some r \<Rightarrow> r | None \<Rightarrow> l)"

definition apple_yearless_date_sub :: "string \<Rightarrow> string" where
  "apple_yearless_date_sub s = join [newline] (map sub_yearless_line (split s [newline]))"

text \<open>
  \<^verbatim>\<open>^(?:\+?1[-. ]?)?(?:\(?(\d{3})\)?[-. ]?(\d{3})[-. ]?(\d{4}))$\<close>, giving the three groups.
  \<open>phone_body\<close> is the second group of the pattern up to \<open>$\<close>; the optional prefix is
  tried first and, when the rest fails after it, the body is tried on the whole string.
\<close>

definition opt_char :: "(char \<Rightarrow> bool) \<Rightarrow> string \<Rightarrow> string" where
  "opt_char P s = (case s of c # cs \<Rightarrow> if P c then cs else s | [] \<Rightarrow> s)"

definition digits_n :: "nat \<Rightarrow> string \<Rightarrow> (string \<times> string) option" where
  "digits_n n s =
     (if n \<le> length s \<and> list_all is_digit (take n s) then Some (take n s, drop n s) else None)"

definition is_phone_sep :: "char \<Rightarrow> bool" where
  "is_phone_sep c = (c \<in> set ''-. '')"

definition phone_body :: "string \<Rightarrow> (string \<times> string \<times> string) option" where
  "phone_body s =
     (case digits_n 3 (opt_char (\<lambda>c. c = CHR ''('') s) of
        None \<Rightarrow> None
      | Some (a, s1) \<Rightarrow>
          (case digits_n 3 (opt_char is_phone_sep (opt_char (\<lambda>c. c = CHR '')'') s1)) of
             None \<Rightarrow> None
           | Some (b, s2) \<Rightarrow>
               (case digits_n 4 (opt_char is_phone_sep s2) of
                  None \<Rightarrow> None
                | Some (c, s3) \<Rightarrow> if s3 = [] \<or> s3 = [newline] then Some (a, b, c) else None)))"

definition phone_format :: "string \<Rightarrow> (string \<times> string \<times> string) option" where
  "phone_format s =
     (let p = opt_char (\<lambda>c. c = CHR ''+'') s
      in case (if startswith p ''1'' then phone_body (opt_char is_phone_sep (drop 1 p)) else None) of
           Some g \<Rightarrow> Some g
         | None \<Rightarrow> phone_body s)"

subsection \<open>The two formatters\<close>

text \<open>
  The switches \<^verbatim>\<open>format_address.enabled\<close>, \<^verbatim>\<open>format_phone.enabled\<close>,
  \<^verbatim>\<open>parse_vcard.preferred\<close> and the argument \<^verbatim>\<open>debug\<close> are set once before parsing;
  they are the fields of the configuration.
\<close>

record config =
  preferred :: bool
  address_enabled :: bool
  phone_enabled :: bool
  debug :: bool

definition format_address :: "config \<Rightarrow> string \<Rightarrow> string" where
  "format_address cfg address =
     (if address_enabled cfg
      then join '', '' (map strip (filter (\<lambda>comp. strip comp \<noteq> []) (split address '';'')))
      else address)"

definition format_phone :: "config \<Rightarrow> string \<Rightarrow> string" where
  "format_phone cfg phone =
     (if phone_enabled cfg then
        (case phone_format phone of
           Some (a, b, c) \<Rightarrow> a @ ''-'' @ b @ ''-'' @ c
         | None \<Rightarrow> phone)
      else phone)"

subsection \<open>The rules of the line classifier\<close>

type_synonym pair = "string \<times> string"

definition bind_err :: "py_error + 'a \<Rightarrow> ('a \<Rightarrow> py_error + 'b) \<Rightarrow> py_error + 'b" where
  "bind_err m f = (case m of Inl e \<Rightarrow> Inl e | Inr v \<Rightarrow> f v)"

text \<open>\<^verbatim>\<open>s.split(c, 1)[1].strip()\<close>: an \<^verbatim>\<open>IndexError\<close> when \<open>s\<close> has no \<open>c\<close>.\<close>

definition second_stripped :: "string \<Rightarrow> char \<Rightarrow> py_error + string" where
  "second_stripped s c = bind_err (nth_err (split1 s c) 1) (\<lambda>v. Inr (strip v))"

text \<open>\<^verbatim>\<open>s[i]\<close> on a string is the one-character string at \<open>i\<close>.\<close>

definition str_index :: "string \<Rightarrow> nat \<Rightarrow> py_error + string" where
  "str_index s i = bind_err (nth_err s i) (\<lambda>c. Inr [c])"

definition nonempty_pair :: "string \<Rightarrow> string \<Rightarrow> pair list" where
  "nonempty_pair label v = (if v \<noteq> [] then [(label, v)] else [])"

definition rule_N :: "string \<Rightarrow> py_error + pair list" where
  "rule_N field =
     bind_err (second_stripped field CHR '':'') (\<lambda>v.
       let parts = split v '';'' in
       bind_err (nth_err parts 0) (\<lambda>p0.
       bind_err (nth_err parts 1) (\<lambda>p1.
       bind_err (nth_err parts 2) (\<lambda>p2.
       bind_err (nth_err parts 3) (\<lambda>p3.
       bind_err (nth_err parts 4) (\<lambda>p4.
         Inr (nonempty_pair ''Name: Last'' p0 @ nonempty_pair ''Name: First'' p1
              @ nonempty_pair ''Name: Middle'' p2 @ nonempty_pair ''Name: Prefix'' p3
              @ nonempty_pair ''Name: Suffix'' p4)))))))"

definition rule_ORG :: "string \<Rightarrow> py_error + pair list" where
  "rule_ORG field =
     (let parts = split (drop 4 field) '';'' in
      bind_err (nth_err parts 0) (\<lambda>p0.
      bind_err (nth_err parts 1) (\<lambda>p1.
        Inr (nonempty_pair ''Organization: Name'' p0
             @ nonempty_pair ''Organization: Department'' p1))))"

text \<open>The rules that save the stripped text after the first colon under a fixed label.\<close>

definition rule_value :: "string \<Rightarrow> string \<Rightarrow> py_error + pair list" where
  "rule_value label field = bind_err (second_stripped field CHR '':'') (\<lambda>v. Inr [(label, v)])"

definition email_label :: "string list \<Rightarrow> string" where
  "email_label parts =
     foldl (\<lambda>label entry.
              case vcard_comm_type_single (strip entry) of
                Some g \<Rightarrow> if g \<noteq> ''INTERNET'' then capitalize g else label
              | None \<Rightarrow> label) [] parts"

definition email_entry :: "config \<Rightarrow> string \<Rightarrow> string \<Rightarrow> pair list" where
  "email_entry cfg label entry =
     (case vcard_comm_type_compound (strip entry) of
        Some (g1, g2) \<Rightarrow>
          (''Email: '' @ label, g2)
          # (if preferred cfg \<and> lower g1 = ''pref''
             then [(''Email: '' @ label @ '' (Preferred)'', g2)] else [])
      | None \<Rightarrow> [])"

definition rule_EMAIL :: "config \<Rightarrow> string \<Rightarrow> py_error + pair list" where
  "rule_EMAIL cfg field =
     bind_err (second_stripped field CHR '';'') (\<lambda>v.
       let parts = split v '';'' in
       Inr (concat (map (email_entry cfg (email_label parts)) parts)))"

definition tel_single_labels :: "string list \<Rightarrow> string list" where
  "tel_single_labels parts =
     foldl (\<lambda>labels entry.
              case vcard_comm_type_single (strip entry) of
                Some g \<Rightarrow> if capitalize g \<noteq> ''Voice'' then labels @ [capitalize g] else labels
              | None \<Rightarrow> labels) [] parts"

text \<open>
  The two inner loops \<^verbatim>\<open>for label in [...]: if label in labels: label_select = ...\<close>:
  every candidate that is present overwrites the selection.
\<close>

definition select_loop :: "string \<Rightarrow> string list \<Rightarrow> string list \<Rightarrow> string" where
  "select_loop pre cands labels =
     foldl (\<lambda>label_select label. if label \<in> set labels then pre @ label else label_select)
       [] cands"

definition tel_label_select :: "string list \<Rightarrow> string" where
  "tel_label_select labels =
     (if ''Pager'' \<in> set labels then ''Pager''
      else if ''Fax'' \<in> set labels then select_loop ''Fax: '' [''Home'', ''Work'', ''Other''] labels
      else if ''Applewatch'' \<in> set labels then ''Phone: Apple Watch''
      else if ''Iphone'' \<in> set labels then ''Phone: iPhone''
      else if ''Cell'' \<in> set labels then ''Phone: Cell''
      else select_loop ''Phone: '' [''Home'', ''Work'', ''Other'', ''Main''] labels)"

definition tel_entry :: "config \<Rightarrow> string list \<times> pair list \<Rightarrow> string \<Rightarrow> string list \<times> pair list" where
  "tel_entry cfg acc entry =
     (case acc of (labels, out) \<Rightarrow>
        (case vcard_comm_type_compound (strip entry) of
           Some (g1, g2) \<Rightarrow>
             (let labels' = (if capitalize g1 \<noteq> ''Voice'' then labels @ [capitalize g1] else labels);
                  label_select = tel_label_select labels'
              in (labels',
                  out @ (label_select, format_phone cfg g2)
                      # (if preferred cfg \<and> lower g1 = ''pref''
                         then [(label_select @ '' (Preferred)'', format_phone cfg g2)] else [])))
         | None \<Rightarrow> (labels, out)))"

definition rule_TEL :: "config \<Rightarrow> string \<Rightarrow> py_error + pair list" where
  "rule_TEL cfg field =
     bind_err (second_stripped field CHR '';'') (\<lambda>v.
       let parts = split v '';'' in
       Inr (snd (foldl (tel_entry cfg) (tel_single_labels parts, []) parts)))"

text \<open>
  The address block, written twice in the source with the same text: in the rule
  \<^verbatim>\<open>ADR;\<close> on the line and in the resolver on the data of an \<^verbatim>\<open>X-ABADR:\<close> group.
\<close>

definition address_pairs :: "config \<Rightarrow> string \<Rightarrow> py_error + pair list" where
  "address_pairs cfg x =
     bind_err (second_stripped x CHR '';'') (\<lambda>v.
       case vcard_comm_type_pref v of
         None \<Rightarrow> Inl AttributeError
       | Some (g1, g2) \<Rightarrow>
           (let label = capitalize g1 in
            Inr ((''Address: '' @ label, format_address cfg g2)
                 # (if preferred cfg \<and> contains x '';type=pref:''
                    then [(''Address: '' @ label @ '' (Preferred)'', format_address cfg g2)]
                    else []))))"

text \<open>The rules \<^verbatim>\<open>X-SOCIALPROFILE;\<close> and \<^verbatim>\<open>URL;\<close>, which differ in the label only.\<close>

definition rule_typed :: "string \<Rightarrow> string \<Rightarrow> py_error + pair list" where
  "rule_typed pre field =
     bind_err (second_stripped field CHR '';'') (\<lambda>v.
       let parts = split1 v CHR '':'' in
       bind_err (nth_err parts 0) (\<lambda>p0.
       bind_err (nth_err (split p0 ''='') 1) (\<lambda>t.
       bind_err (nth_err parts 1) (\<lambda>p1.
         Inr [(pre @ strip (capitalize t), strip p1)]))))"

definition rule_BDAY :: "string \<Rightarrow> pair list" where
  "rule_BDAY field =
     [(''Date: Birthday'',
       strip (last (split1 (apple_yearless_date_sub (strip (last (split1 field CHR '';''))))
                      CHR '':'')))]"

subsection \<open>The line loop\<close>

text \<open>
  The variables of one pass of the loop over the entries. \<open>groups\<close> is the dictionary in
  the order in which its keys were inserted, the order in which the resolver visits them.
\<close>

record pstate =
  skip_photo :: bool
  groups :: "(nat \<times> string list) list"
  save :: "pair list"
  unknown_name :: string
  unknown :: "string list"

definition emit :: "pstate \<Rightarrow> py_error + pair list \<Rightarrow> py_error + pstate" where
  "emit st r = bind_err r (\<lambda>ps. Inr (st\<lparr>save := save st @ ps\<rparr>))"

definition groups_append :: "(nat \<times> string list) list \<Rightarrow> nat \<Rightarrow> string \<Rightarrow> (nat \<times> string list) list" where
  "groups_append gs key v =
     (if key \<in> set (map fst gs)
      then map (\<lambda>g. if fst g = key then (fst g, snd g @ [v]) else g) gs
      else gs @ [(key, [v])])"

definition classify :: "config \<Rightarrow> pstate \<Rightarrow> string \<Rightarrow> py_error + pstate" where
  "classify cfg st field =
     (if startswith field ''BEGIN:VCARD'' \<or> startswith field ''END:VCARD'' then Inr st
      else if list_ex (startswith field)
                [''VERSION:'', ''PRODID:'', ''VND-63-SENSITIVE-CONTENT-CONFIG:''] then Inr st
      else if field = ''X-ABShowAs:COMPANY'' then emit st (Inr [(''Is Company'', ''X'')])
      else if startswith field ''N:'' then emit st (rule_N field)
      else if startswith field ''FN:'' then
        bind_err (second_stripped field CHR '':'') (\<lambda>v.
          Inr (st\<lparr>save := save st @ [(''Name: Full'', v)],
                  unknown_name := (if debug cfg then ''Name (Full): '' @ v else unknown_name st)\<rparr>))
      else if startswith field ''NICKNAME:'' then emit st (rule_value ''Name: Nickname'' field)
      else if startswith field ''X-MAIDENNAME:'' then emit st (rule_value ''Name: Maiden'' field)
      else if startswith field ''X-PHONETIC-FIRST-NAME:''
        then emit st (rule_value ''Name: First (Phonetic)'' field)
      else if startswith field ''X-PHONETIC-MIDDLE-NAME:''
        then emit st (rule_value ''Name: Middle (Phonetic)'' field)
      else if startswith field ''X-PHONETIC-LAST-NAME:''
        then emit st (rule_value ''Name: Last (Phonetic)'' field)
      else if startswith field ''ORG:'' then emit st (rule_ORG field)
      else if startswith field ''X-PHONETIC-ORG:''
        then emit st (rule_value ''Organization: Name (Phonetic)'' field)
      else if startswith field ''TITLE:'' then emit st (rule_value ''Organization: Title'' field)
      else if startswith field ''EMAIL;'' then emit st (rule_EMAIL cfg field)
      else if startswith field ''TEL;'' then emit st (rule_TEL cfg field)
      else if startswith field ''ADR;'' then emit st (address_pairs cfg field)
      else if startswith field ''X-SOCIALPROFILE;'' then emit st (rule_typed ''Social: '' field)
      else if startswith field ''NOTE:'' then emit st (rule_value ''Note'' field)
      else if startswith field ''URL;'' then emit st (rule_typed ''URL: '' field)
      else if startswith field ''BDAY'' then emit st (Inr (rule_BDAY field))
      else (case vcard_grouped_field field of
              Some (g1, g2) \<Rightarrow>
                Inr (st\<lparr>groups := groups_append (groups st) (int_of_digits g1) g2\<rparr>)
            | None \<Rightarrow>
                Inr (st\<lparr>save := save st @ [(''Unknown'', field)],
                        unknown := (if debug cfg then unknown st @ [field] else unknown st)\<rparr>)))"

text \<open>One pass of the body of \<^verbatim>\<open>for field in fields\<close>, from the raw line.\<close>

definition process_field :: "config \<Rightarrow> pstate \<Rightarrow> string \<Rightarrow> py_error + pstate" where
  "process_field cfg st field =
     (if startswith (strip field) ''PHOTO;'' then Inr (st\<lparr>skip_photo := True\<rparr>)
      else if skip_photo st \<and> startswith field '' '' then Inr st
      else classify cfg (st\<lparr>skip_photo := False\<rparr>) (strip field))"

fun field_loop :: "config \<Rightarrow> pstate \<Rightarrow> string list \<Rightarrow> py_error + pstate" where
  "field_loop cfg st [] = Inr st"
| "field_loop cfg st (field # rest) =
     (case process_field cfg st field of
        Inl e \<Rightarrow> Inl e
      | Inr st' \<Rightarrow> field_loop cfg st' rest)"

subsection \<open>The grouped-field resolver\<close>

definition unknown_group :: "nat \<Rightarrow> string list \<Rightarrow> string" where
  "unknown_group key vs = ''Item Group: '' @ str_nat key @ '', Values: '' @ str_list vs"

text \<open>
  \<^verbatim>\<open>if parse_vcard.preferred and x.endswith("pref"): save.append(p)\<close>, where \<open>x\<close> is only
  evaluated when the switch is set.
\<close>

definition pref_dup :: "config \<Rightarrow> py_error + string \<Rightarrow> pair \<Rightarrow> py_error + pair list" where
  "pref_dup cfg x p =
     (if preferred cfg then bind_err x (\<lambda>t. Inr (if endswith t ''pref'' then [p] else []))
      else Inr [])"

text \<open>
  The branches \<^verbatim>\<open>TEL\<close>, \<^verbatim>\<open>ADR\<close> and \<^verbatim>\<open>URL\<close> of the resolver: \<^verbatim>\<open>data\<close> is rebound to
  the stripped text after the first colon, a string, and \<^verbatim>\<open>data[0]\<close> is then its first
  character.
\<close>

definition resolve_colon :: "config \<Rightarrow> string \<Rightarrow> string \<Rightarrow> (string \<Rightarrow> string) \<Rightarrow> string
    \<Rightarrow> py_error + pair list" where
  "resolve_colon cfg pre label fmt data =
     bind_err (second_stripped data CHR '':'') (\<lambda>d.
     bind_err (pref_dup cfg (str_index d 0) (pre @ label @ '' (Preferred)'', fmt d)) (\<lambda>dup.
       Inr ((pre @ label, fmt d) # dup)))"

definition resolve_EMAIL :: "config \<Rightarrow> string \<Rightarrow> string \<Rightarrow> py_error + pair list" where
  "resolve_EMAIL cfg label data =
     bind_err (second_stripped data CHR '';'') (\<lambda>v.
       let d = split1 v CHR '':'' in
       bind_err (nth_err d 1) (\<lambda>d1.
       bind_err (pref_dup cfg (nth_err d 0) (''Email: '' @ label @ '' (Preferred)'', strip d1))
         (\<lambda>dup. Inr ((''Email: '' @ label, strip d1) # dup))))"

definition resolve_IMPP :: "config \<Rightarrow> string \<Rightarrow> string \<Rightarrow> py_error + pair list" where
  "resolve_IMPP cfg label data =
     bind_err (second_stripped data CHR '':'') (\<lambda>d.
     bind_err (second_stripped d CHR '':'') (\<lambda>v.
     bind_err (pref_dup cfg (str_index d 0) (''IMPP: '' @ label @ '' (Preferred)'', d)) (\<lambda>dup.
       Inr ((''IMPP: '' @ label, v) # dup))))"

definition resolve_ABDATE :: "string \<Rightarrow> string \<Rightarrow> py_error + pair list" where
  "resolve_ABDATE label data =
     (if contains data ''X-APPLE-OMIT-YEAR''
      then Inr [(''Date: '' @ label, strip (apple_yearless_date_sub data))]
      else bind_err (second_stripped data CHR '':'') (\<lambda>v. Inr [(''Date: '' @ label, v)]))"

text \<open>The resolver from the match of the extra-label pattern on: what it does with \<open>label\<close> and \<open>data\<close>.\<close>

definition dispatch :: "config \<Rightarrow> pstate \<Rightarrow> nat \<Rightarrow> string list \<Rightarrow> string \<Rightarrow> string
    \<Rightarrow> py_error + pstate" where
  "dispatch cfg st key vs label0 data =
     (let label = (case vcard_extra_label label0 of Some g \<Rightarrow> strip g | None \<Rightarrow> label0) in
      if startswith data ''EMAIL;'' then emit st (resolve_EMAIL cfg label data)
      else if startswith data ''TEL:'' \<or> startswith data ''TEL;''
        then emit st (resolve_colon cfg ''Phone: '' label (format_phone cfg) data)
      else if startswith data ''ADR:'' \<or> startswith data ''ADR;''
        then emit st (resolve_colon cfg ''Address: '' label (format_address cfg) data)
      else if startswith data ''URL:'' \<or> startswith data ''URL;''
        then emit st (resolve_colon cfg ''URL: '' label (\<lambda>d. d) data)
      else if startswith data ''X-AIM'' \<or> startswith data ''X-JABBER'' \<or> startswith data ''X-MSN''
              \<or> startswith data ''X-YAHOO'' \<or> startswith data ''X-ICQ'' then Inr st
      else if startswith data ''IMPP;'' then emit st (resolve_IMPP cfg label data)
      else if startswith data ''X-ABDATE:'' \<or> startswith data ''X-ABDATE;''
        then emit st (resolve_ABDATE label data)
      else if startswith data ''X-ABRELATEDNAMES:'' \<or> startswith data ''X-ABRELATEDNAMES;''
        then emit st (rule_value (''Relationship: '' @ label) data)
      else Inr (st\<lparr>save := save st @ [(''Unknown'', unknown_group key vs)],
                   unknown := (if debug cfg then unknown st @ [unknown_group key vs]
                               else unknown st)\<rparr>))"

text \<open>One pass of the body of \<^verbatim>\<open>for group in groups\<close>, on the key and its list of values.\<close>

definition resolve_group :: "config \<Rightarrow> pstate \<Rightarrow> nat \<times> string list \<Rightarrow> py_error + pstate" where
  "resolve_group cfg st g =
     (case g of (key, vs) \<Rightarrow>
        bind_err (nth_err vs 1) (\<lambda>v1.
          if startswith v1 ''X-ABLabel:'' then
            bind_err (nth_err (split v1 ''X-ABLabel:'') 1) (\<lambda>label.
            bind_err (nth_err vs 0) (\<lambda>data. dispatch cfg st key vs label data))
          else
            bind_err (nth_err vs 0) (\<lambda>v0.
              if startswith v0 ''X-ABLabel:'' then
                bind_err (nth_err (split v0 ''X-ABLabel:'') 1) (\<lambda>label.
                  dispatch cfg st key vs label v1)
              else if startswith v0 ''X-ABADR:'' \<or> startswith v1 ''X-ABADR:'' then
                emit st (address_pairs cfg
                  (if startswith v1 ''X-ABADR:'' then v0
                   else if startswith v0 ''X-ABADR:'' then v1 else []))
              else
                dispatch cfg (st\<lparr>save := save st @ [(''Unknown'', unknown_group key vs)]\<rparr>)
                  key vs [] [])))"

fun group_loop :: "config \<Rightarrow> pstate \<Rightarrow> (nat \<times> string list) list \<Rightarrow> py_error + pstate" where
  "group_loop cfg st [] = Inr st"
| "group_loop cfg st (g # gs) =
     (case resolve_group cfg st g of
        Inl e \<Rightarrow> Inl e
      | Inr st' \<Rightarrow> group_loop cfg st' gs)"

subsection \<open>Entries and the whole text\<close>

definition init_state :: pstate where
  "init_state = \<lparr>skip_photo = False, groups = [], save = [], unknown_name = [], unknown = []\<rparr>"

text \<open>The body of \<^verbatim>\<open>for index, entry in enumerate(entries)\<close>: the list saved for one entry.\<close>

definition parse_entry :: "config \<Rightarrow> string \<Rightarrow> py_error + pair list" where
  "parse_entry cfg entry =
     bind_err (field_loop cfg init_state (splitlines entry)) (\<lambda>st.
     bind_err (group_loop cfg st (groups st)) (\<lambda>st'. Inr (save st')))"

fun entries_loop :: "config \<Rightarrow> string list \<Rightarrow> py_error + pair list list" where
  "entries_loop cfg [] = Inr []"
| "entries_loop cfg (entry # rest) =
     bind_err (parse_entry cfg entry) (\<lambda>sv.
     bind_err (entries_loop cfg rest) (\<lambda>out. Inr (sv # out)))"

text \<open>
  \<^verbatim>\<open>parse_vcard\<close> from the text read from the file on: the entries are the pieces
  between the markers \<^verbatim>\<open>END:VCARD\<close> that are not blank, each trimmed and given its marker
  back.
\<close>

definition split_entries :: "string \<Rightarrow> string list" where
  "split_entries content =
     map (\<lambda>entry. strip entry @ [newline] @ ''END:VCARD'')
       (filter (\<lambda>entry. strip entry \<noteq> []) (split content ''END:VCARD''))"

definition parse_vcard :: "config \<Rightarrow> string \<Rightarrow> py_error + pair list list" where
  "parse_vcard cfg content = entries_loop cfg (split_entries content)"

subsection \<open>The column ordering\<close>

definition field_order_head :: "string list" where
  "field_order_head =
     [''Is Company'',
      ''Organization: Name'',
      ''Organization: Name (Phonetic)'',
      ''Organization: Department'',
      ''Title'',
      ''Name: Full'',
      ''Name: Prefix'',
      ''Name: First'',
      ''Name: Middle'',
      ''Name: Last'',
      ''Name: Maiden'',
      ''Name: Suffix'',
      ''Name: First (Phonetic)'',
      ''Name: Middle (Phonetic)'',
      ''Name: Last (Phonetic)'',
      ''Nickname'',
      ''Phone: iPhone'',
      ''Phone: iPhone (Preferred)'',
      ''Phone: Cell'',
      ''Phone: Cell (Preferred)'',
      ''Phone: Work'',
      ''Phone: Work (Preferred)'',
      ''Phone: Home'',
      ''Phone: Home (Preferred)'']"

definition field_order2 :: "string list" where
  "field_order2 =
     [''Email: Work'',
      ''Email: Work (Preferred)'',
      ''Email: Home'',
      ''Email: Home (Preferred)'']"

text \<open>
  The two loops over prefixes. The first appends a selected field that is not yet in
  \<^verbatim>\<open>field_order\<close>; the second tests against \<^verbatim>\<open>field_order2\<close>.
\<close>

definition phone_loop :: "string list \<Rightarrow> string list \<Rightarrow> string list" where
  "phone_loop unique_headers field_order =
     foldl (\<lambda>fo prefix.
              foldl (\<lambda>fo selected_field.
                       if selected_field \<notin> set fo then fo @ [selected_field] else fo)
                fo (filter (\<lambda>field. startswith field prefix) unique_headers))
       field_order [''Phone'', ''Pager'', ''Fax'']"

definition email_loop :: "string list \<Rightarrow> string list \<Rightarrow> string list" where
  "email_loop unique_headers field_order =
     foldl (\<lambda>fo prefix.
              foldl (\<lambda>fo selected_field.
                       if selected_field \<notin> set field_order2 then fo @ [selected_field] else fo)
                fo (filter (\<lambda>field. startswith field prefix) unique_headers))
       field_order [''Email'', ''Address'', ''Date'', ''Relationship'']"

text \<open>The list \<^verbatim>\<open>field_order\<close> as it stands before the last loop.\<close>

definition field_order :: "string list \<Rightarrow> string list" where
  "field_order unique_headers =
     email_loop unique_headers (phone_loop unique_headers field_order_head @ field_order2)"

text \<open>
  The last loop: it appends to \<^verbatim>\<open>headers\<close> and removes from the list it was given
  (\<^verbatim>\<open>list.remove\<close> deletes the first occurrence). It returns both lists.
\<close>

fun place :: "string list \<Rightarrow> string list \<Rightarrow> string list \<Rightarrow> string list \<times> string list" where
  "place [] headers unique_headers = (headers, unique_headers)"
| "place (field # rest) headers unique_headers =
     (if field \<in> set unique_headers
      then place rest (headers @ [field]) (remove1 field unique_headers)
      else place rest headers unique_headers)"

text \<open>
  \<^verbatim>\<open>custom_column_ordering\<close>, with the switch \<^verbatim>\<open>custom_column_ordering.enabled\<close> as an
  argument. The result is the list returned and the content of the argument list when
  the function returns: the argument is a Python list, which the function changes in place.
\<close>

definition custom_column_ordering :: "bool \<Rightarrow> string list \<Rightarrow> string list \<times> string list" where
  "custom_column_ordering enabled unique_headers =
     (if \<not> enabled then (unique_headers, unique_headers)
      else (case place (field_order unique_headers) [] unique_headers of
              (headers, unique_headers') \<Rightarrow> (headers @ unique_headers', unique_headers')))"

subsection \<open>Predicates and reference functions for the statements\<close>

text \<open>
  The conditions of the rule table of \<^const>\<open>classify\<close>, in its order: the prefixes it
  tests, the one line it compares in full, and the pattern of a grouped field.
\<close>

definition rule_prefixes :: "string list" where
  "rule_prefixes =
     [''BEGIN:VCARD'', ''END:VCARD'', ''VERSION:'', ''PRODID:'',
      ''VND-63-SENSITIVE-CONTENT-CONFIG:'', ''N:'', ''FN:'', ''NICKNAME:'', ''X-MAIDENNAME:'',
      ''X-PHONETIC-FIRST-NAME:'', ''X-PHONETIC-MIDDLE-NAME:'', ''X-PHONETIC-LAST-NAME:'',
      ''ORG:'', ''X-PHONETIC-ORG:'', ''TITLE:'', ''EMAIL;'', ''TEL;'', ''ADR;'',
      ''X-SOCIALPROFILE;'', ''NOTE:'', ''URL;'', ''BDAY'']"

definition matches_rule :: "string \<Rightarrow> bool" where
  "matches_rule field =
     (list_ex (startswith field) rule_prefixes \<or> field = ''X-ABShowAs:COMPANY''
      \<or> vcard_grouped_field field \<noteq> None)"

text \<open>A raw line that the loop passes over before it classifies: the photo block.\<close>

definition photo_skipped :: "pstate \<Rightarrow> string \<Rightarrow> bool" where
  "photo_skipped st line =
     (startswith (strip line) ''PHOTO;'' \<or> (skip_photo st \<and> startswith line '' ''))"




text \<open>
  The labels the column arrangement recognizes, stated without the loops that build it:
  the names of its two fixed lists and every label that starts with one of the seven
  prefixes it collects.
\<close>

definition arrangement_prefixes :: "string list" where
  "arrangement_prefixes =
     [''Phone'', ''Pager'', ''Fax'', ''Email'', ''Address'', ''Date'', ''Relationship'']"

definition recognized :: "string \<Rightarrow> bool" where
  "recognized label =
     (label \<in> set field_order_head \<or> label \<in> set field_order2
      \<or> list_ex (startswith label) arrangement_prefixes)"

text \<open>
  The reference description of the rule \<^verbatim>\<open>TEL;\<close>, against which \<^const>\<open>rule_TEL\<close> is
  compared. The label is chosen from the set of collected type labels by a fixed cascade;
  among \<open>Home\<close>, \<open>Work\<close>, \<open>Other\<close> and \<open>Main\<close> the one listed last that is present is taken.
\<close>

definition tel_label_spec :: "string set \<Rightarrow> string" where
  "tel_label_spec L =
     (if ''Pager'' \<in> L then ''Pager''
      else if ''Fax'' \<in> L then
        (if ''Other'' \<in> L then ''Fax: Other''
         else if ''Work'' \<in> L then ''Fax: Work''
         else if ''Home'' \<in> L then ''Fax: Home''
         else [])
      else if ''Applewatch'' \<in> L then ''Phone: Apple Watch''
      else if ''Iphone'' \<in> L then ''Phone: iPhone''
      else if ''Cell'' \<in> L then ''Phone: Cell''
      else if ''Main'' \<in> L then ''Phone: Main''
      else if ''Other'' \<in> L then ''Phone: Other''
      else if ''Work'' \<in> L then ''Phone: Work''
      else if ''Home'' \<in> L then ''Phone: Home''
      else [])"

text \<open>The capitalized single-token types of the parameters, \<open>Voice\<close> left out.\<close>

definition tel_types :: "string list \<Rightarrow> string list" where
  "tel_types parts =
     filter (\<lambda>t. t \<noteq> ''Voice'')
       (List.map_filter (\<lambda>entry. map_option capitalize (vcard_comm_type_single (strip entry)))
          parts)"

text \<open>
  The pairs of a \<^verbatim>\<open>TEL;\<close> line: one for each parameter of the form
  \<^verbatim>\<open>type=<letters>:<value>\<close>, in order, labelled from the types collected so far together
  with the parameter's own type, and one more under the label with \<open>(Preferred)\<close> when
  the switch is set and the parameter's type is \<open>pref\<close> in any letter case.
\<close>

fun tel_spec :: "config \<Rightarrow> string list \<Rightarrow> string list \<Rightarrow> pair list" where
  "tel_spec cfg types [] = []"
| "tel_spec cfg types (entry # rest) =
     (case vcard_comm_type_compound (strip entry) of
        None \<Rightarrow> tel_spec cfg types rest
      | Some (g1, g2) \<Rightarrow>
          (let types' = (if capitalize g1 = ''Voice'' then types else types @ [capitalize g1]);
               label = tel_label_spec (set types')
           in (label, format_phone cfg g2)
              # (if preferred cfg \<and> lower g1 = ''pref''
                 then [(label @ '' (Preferred)'', format_phone cfg g2)] else [])
              @ tel_spec cfg types' rest))"

definition tel_params :: "string list \<Rightarrow> string list" where
  "tel_params parts = filter (\<lambda>entry. vcard_comm_type_compound (strip entry) \<noteq> None) parts"

definition tel_pref_params :: "string list \<Rightarrow> string list" where
  "tel_pref_params parts =
     filter (\<lambda>entry. case vcard_comm_type_compound (strip entry) of
                        Some (g1, g2) \<Rightarrow> lower g1 = ''pref''
                      | None \<Rightarrow> False) parts"

text \<open>Two configurations for the concrete instances: every switch off, and every switch but \<open>debug\<close> on.\<close>

definition plain_config :: config where
  "plain_config = \<lparr>preferred = False, address_enabled = False, phone_enabled = False, debug = False\<rparr>"

definition full_config :: config where
  "full_config = \<lparr>preferred = True, address_enabled = True, phone_enabled = True, debug = False\<rparr>"

section \<open>Properties\<close>

subsection \<open>Prefixes and the rules they select\<close>

lemma startswith_Nil [simp]: "startswith s [] = True"
  by (simp add: startswith_def)

lemma startswith_Nil_Cons [simp]: "startswith [] (c # p) = False"
  by (simp add: startswith_def)

lemma startswith_Cons_Cons [simp]: "startswith (x # xs) (c # p) = (x = c \<and> startswith xs p)"
  by (simp add: startswith_def)

lemma startswith_append: "startswith s p = (\<exists>r. s = p @ r)"
proof
  assume "startswith s p"
  then have "s = p @ drop (length p) s"
    by (metis append_take_drop_id startswith_def)
  then show "\<exists>r. s = p @ r" ..
next
  assume "\<exists>r. s = p @ r"
  then show "startswith s p" by (auto simp: startswith_def)
qed

lemma second_stripped_prefix:
  assumes "c \<notin> set p"
  shows "second_stripped (p @ c # r) c = Inr (strip r)"
proof -
  have "takeWhile (\<lambda>x. x \<noteq> c) (p @ c # r) = p"
    using assms by (auto simp: takeWhile_tail)
  moreover have "dropWhile (\<lambda>x. x \<noteq> c) (p @ c # r) = c # r"
    using assms by (induction p) auto
  ultimately show ?thesis
    by (simp add: second_stripped_def split1_def nth_err_def bind_err_def)
qed

lemma second_stripped_N: "startswith field ''N:'' \<Longrightarrow> second_stripped field CHR '':'' = Inr (strip (drop 2 field))"
  using second_stripped_prefix [of "CHR '':''" "''N''"] by (auto simp: startswith_append)

lemma second_stripped_ADR: "startswith field ''ADR;'' \<Longrightarrow> second_stripped field CHR '';'' = Inr (strip (drop 4 field))"
  using second_stripped_prefix [of "CHR '';''" "''ADR''"] by (auto simp: startswith_append)

lemma second_stripped_TEL: "startswith field ''TEL;'' \<Longrightarrow> second_stripped field CHR '';'' = Inr (strip (drop 4 field))"
  using second_stripped_prefix [of "CHR '';''" "''TEL''"] by (auto simp: startswith_append)

lemma classify_N: "startswith field ''N:'' \<Longrightarrow> classify cfg st field = emit st (rule_N field)"
proof -
  assume "startswith field ''N:''"
  then obtain r where "field = ''N:'' @ r" by (auto simp: startswith_append)
  then show ?thesis by (simp add: classify_def)
qed

lemma classify_ADR: "startswith field ''ADR;'' \<Longrightarrow> classify cfg st field = emit st (address_pairs cfg field)"
proof -
  assume "startswith field ''ADR;''"
  then obtain r where "field = ''ADR;'' @ r" by (auto simp: startswith_append)
  then show ?thesis by (simp add: classify_def)
qed

lemma classify_TEL: "startswith field ''TEL;'' \<Longrightarrow> classify cfg st field = emit st (rule_TEL cfg field)"
proof -
  assume "startswith field ''TEL;''"
  then obtain r where "field = ''TEL;'' @ r" by (auto simp: startswith_append)
  then show ?thesis by (simp add: classify_def)
qed


lemma nonempty_pair_label: "p \<in> set (nonempty_pair label v) \<Longrightarrow> fst p = label"
  by (simp add: nonempty_pair_def split: if_splits)

lemma rule_N_short:
  assumes "startswith field ''N:''" and "length (split (strip (drop 2 field)) '';'') < 5"
  shows "rule_N field = Inl IndexError"
  using assms(2)
  by (simp add: rule_N_def second_stripped_N [OF assms(1)] bind_err_def nth_err_def Let_def)

lemma rule_N_long:
  assumes "startswith field ''N:''" and "5 \<le> length (split (strip (drop 2 field)) '';'')"
  shows "rule_N field =
     (let parts = split (strip (drop 2 field)) '';'' in
      Inr (nonempty_pair ''Name: Last'' (parts ! 0) @ nonempty_pair ''Name: First'' (parts ! 1)
           @ nonempty_pair ''Name: Middle'' (parts ! 2) @ nonempty_pair ''Name: Prefix'' (parts ! 3)
           @ nonempty_pair ''Name: Suffix'' (parts ! 4)))"
proof -
  from assms(2) have "split (strip (drop 2 field)) '';'' \<noteq> []" by auto
  with assms(2) show ?thesis
    by (simp add: rule_N_def second_stripped_N [OF assms(1)] bind_err_def nth_err_def Let_def)
qed

subsection \<open>The column ordering\<close>

lemma place_fst: "distinct uh \<Longrightarrow> \<exists>rec. fst (place fs hs uh) = hs @ rec \<and> set rec = set fs \<inter> set uh"
proof (induction fs arbitrary: hs uh)
  case Nil
  then show ?case by simp
next
  case (Cons f fs)
  show ?case
  proof (cases "f \<in> set uh")
    case True
    from Cons.prems have "distinct (remove1 f uh)" by simp
    from Cons.IH [OF this, of "hs @ [f]"] obtain rec where
      r: "fst (place fs (hs @ [f]) (remove1 f uh)) = (hs @ [f]) @ rec"
         "set rec = set fs \<inter> set (remove1 f uh)" by blast
    have "set (f # rec) = set (f # fs) \<inter> set uh"
      using r(2) True Cons.prems by auto
    with r(1) True show ?thesis
      by (intro exI [of _ "f # rec"]) simp
  next
    case False
    from Cons.IH [OF Cons.prems, of hs] obtain rec where
      r: "fst (place fs hs uh) = hs @ rec" "set rec = set fs \<inter> set uh" by blast
    with False show ?thesis by (intro exI [of _ rec]) auto
  qed
qed

lemma filter_neq_absent: "f \<notin> set xs \<Longrightarrow> filter (\<lambda>x. x \<noteq> f) xs = xs"
  by (induction xs) auto

lemma distinct_remove1_filter: "distinct xs \<Longrightarrow> remove1 f xs = filter (\<lambda>x. x \<noteq> f) xs"
  by (induction xs) (auto simp: filter_neq_absent)

lemma place_snd: "distinct uh \<Longrightarrow> snd (place fs hs uh) = filter (\<lambda>x. x \<notin> set fs) uh"
proof (induction fs arbitrary: hs uh)
  case Nil
  then show ?case by simp
next
  case (Cons f fs)
  show ?case
  proof (cases "f \<in> set uh")
    case True
    from Cons.prems have d: "distinct (remove1 f uh)" by simp
    have "remove1 f uh = filter (\<lambda>x. x \<noteq> f) uh"
      using Cons.prems by (rule distinct_remove1_filter)
    then show ?thesis using True Cons.IH [OF d, of "hs @ [f]"]
      by (auto intro: filter_cong)
  next
    case False
    then show ?thesis using Cons.IH [OF Cons.prems, of hs] by (auto intro!: filter_cong)
  qed
qed

lemma place_gen: "\<exists>rec. fst (place fs hs uh) = hs @ rec \<and> set rec \<subseteq> set fs"
proof (induction fs arbitrary: hs uh)
  case Nil
  then show ?case by simp
next
  case (Cons f fs)
  show ?case
  proof (cases "f \<in> set uh")
    case True
    from Cons.IH [of "hs @ [f]" "remove1 f uh"] obtain rec where
      r: "fst (place fs (hs @ [f]) (remove1 f uh)) = (hs @ [f]) @ rec" "set rec \<subseteq> set fs" by blast
    with True show ?thesis by (intro exI [of _ "f # rec"]) auto
  next
    case False
    from Cons.IH [of hs uh] obtain rec where
      r: "fst (place fs hs uh) = hs @ rec" "set rec \<subseteq> set fs" by blast
    with False show ?thesis by (intro exI [of _ rec]) auto
  qed
qed

lemma append_loop_prefix:
  "\<exists>ys. foldl (\<lambda>fo sel. if P fo sel then fo @ [sel] else fo) fo xs = fo @ ys"
  by (induction xs arbitrary: fo) (auto, metis append.assoc)

lemma prefix_loop_prefix:
  "\<exists>ys. foldl (\<lambda>fo prefix. foldl (\<lambda>fo sel. if P fo sel then fo @ [sel] else fo) fo (sel_of prefix)) fo ps = fo @ ys"
proof (induction ps arbitrary: fo)
  case Nil
  then show ?case by simp
next
  case (Cons p ps)
  obtain ys where 1: "foldl (\<lambda>fo sel. if P fo sel then fo @ [sel] else fo) fo (sel_of p) = fo @ ys"
    using append_loop_prefix by blast
  from Cons [of "fo @ ys"] obtain zs where
    "foldl (\<lambda>fo prefix. foldl (\<lambda>fo sel. if P fo sel then fo @ [sel] else fo) fo (sel_of prefix)) (fo @ ys) ps = (fo @ ys) @ zs"
    by blast
  with 1 show ?case by (intro exI [of _ "ys @ zs"]) simp
qed

lemma field_order_head: "\<exists>ys. field_order uh = ''Is Company'' # ys"
proof -
  obtain ys where 1: "phone_loop uh field_order_head = field_order_head @ ys"
    unfolding phone_loop_def using prefix_loop_prefix [of "\<lambda>fo sel. sel \<notin> set fo" "\<lambda>prefix. filter (\<lambda>field. startswith field prefix) uh"] by blast
  obtain zs where 2: "email_loop uh (phone_loop uh field_order_head @ field_order2)
      = (phone_loop uh field_order_head @ field_order2) @ zs"
    unfolding email_loop_def using prefix_loop_prefix [of "\<lambda>fo sel. sel \<notin> set field_order2" "\<lambda>prefix. filter (\<lambda>field. startswith field prefix) uh"] by blast
  from 2 have "field_order uh = (phone_loop uh field_order_head @ field_order2) @ zs"
    by (simp only: field_order_def)
  also have "\<dots> = ((field_order_head @ ys) @ field_order2) @ zs"
    by (simp only: 1)
  finally show ?thesis by (simp add: field_order_head_def)
qed

lemma place_head:
  assumes "f \<in> set uh"
  shows "\<exists>ys. fst (place (f # fs) [] uh) = f # ys"
  using assms place_gen [of fs "[f]" "remove1 f uh"] by auto

text \<open>
  C5. The column ordering is not free of effects on its argument. With reordering off it
  returns the list it was given and leaves it as it is. With reordering on it takes out of
  the list it was given every label it places: what is left in that list when the function
  returns is the tail of the returned list, every label placed before that tail is a
  member of the priority arrangement, and for a list of unique labels what is left is
  exactly the labels outside the arrangement. (That the result depends on the arguments
  only holds of every function of the model.)
\<close>

theorem column_ordering_argument_effect:
  "custom_column_ordering False uh = (uh, uh)
   \<and> (\<exists>rec. fst (custom_column_ordering True uh) = rec @ snd (custom_column_ordering True uh)
             \<and> set rec \<subseteq> set (field_order uh))
   \<and> (distinct uh \<longrightarrow>
        snd (custom_column_ordering True uh) = filter (\<lambda>f. f \<notin> set (field_order uh)) uh)"
proof -
  obtain headers rest where p: "place (field_order uh) [] uh = (headers, rest)"
    by (cases "place (field_order uh) [] uh") blast
  obtain rec where r: "fst (place (field_order uh) [] uh) = [] @ rec" "set rec \<subseteq> set (field_order uh)"
    using place_gen by blast
  have off: "custom_column_ordering False uh = (uh, uh)"
    by (simp add: custom_column_ordering_def)
  have on: "fst (custom_column_ordering True uh) = rec @ snd (custom_column_ordering True uh)"
    using p r(1) by (simp add: custom_column_ordering_def)
  have left: "distinct uh \<longrightarrow>
      snd (custom_column_ordering True uh) = filter (\<lambda>f. f \<notin> set (field_order uh)) uh"
    using p place_snd [of uh "field_order uh" "[]"] by (simp add: custom_column_ordering_def)
  from off on r(2) left show ?thesis by blast
qed

theorem column_ordering_argument_effect_witness:
  "distinct [''Is Company'', ''Note'']
   \<and> snd (custom_column_ordering True [''Is Company'', ''Note''])
       = filter (\<lambda>f. f \<notin> set (field_order [''Is Company'', ''Note''])) [''Is Company'', ''Note'']"
proof -
  have d: "distinct [''Is Company'', ''Note'']" by simp
  show ?thesis
    using d column_ordering_argument_effect [of "[''Is Company'', ''Note'']"] by blast
qed

text \<open>
  C5 as stated fails: called with reordering on and the list \<open>[Is Company, Note]\<close>, the
  function returns \<open>[Is Company, Note]\<close> and leaves \<open>[Note]\<close> in the list it was given.
\<close>

theorem column_ordering_mutates_argument:
  "custom_column_ordering True [''Is Company'', ''Note'']
     = ([''Is Company'', ''Note''], [''Note''])
   \<and> snd (custom_column_ordering True [''Is Company'', ''Note'']) \<noteq> [''Is Company'', ''Note'']"
  by code_simp

lemma set_append_new:
  "set (foldl (\<lambda>fo sel. if sel \<notin> set fo then fo @ [sel] else fo) fo xs) = set fo \<union> set xs"
  by (induction xs arbitrary: fo) auto

lemma set_append_not_in:
  "set (foldl (\<lambda>fo sel. if sel \<notin> S then fo @ [sel] else fo) fo xs) = set fo \<union> (set xs - S)"
  by (induction xs arbitrary: fo) auto

lemma set_phone_loop:
  "set (phone_loop uh fo)
     = set fo \<union> {f \<in> set uh. list_ex (startswith f) [''Phone'', ''Pager'', ''Fax'']}"
  unfolding phone_loop_def by (simp add: set_append_new del: startswith_Cons_Cons) blast

lemma set_email_loop:
  "set (email_loop uh fo)
     = set fo \<union> ({f \<in> set uh. list_ex (startswith f) [''Email'', ''Address'', ''Date'', ''Relationship'']}
                    - set field_order2)"
  unfolding email_loop_def by (simp add: set_append_not_in del: startswith_Cons_Cons) blast

lemma field_order_recognized:
  assumes "f \<in> set uh"
  shows "f \<in> set (field_order uh) \<longleftrightarrow> recognized f"
  using assms
  unfolding field_order_def recognized_def arrangement_prefixes_def
  by (simp add: set_email_loop set_phone_loop del: startswith_Cons_Cons) blast

lemma place_distinct:
  "distinct hs \<Longrightarrow> distinct uh \<Longrightarrow> set hs \<inter> set uh = {} \<Longrightarrow> distinct (fst (place fs hs uh))"
proof (induction fs arbitrary: hs uh)
  case Nil
  then show ?case by simp
next
  case (Cons f fs)
  show ?case
  proof (cases "f \<in> set uh")
    case True
    have "distinct (hs @ [f])" using Cons.prems True by auto
    moreover have "distinct (remove1 f uh)" using Cons.prems by simp
    moreover have "set (hs @ [f]) \<inter> set (remove1 f uh) = {}"
      using Cons.prems by auto
    ultimately show ?thesis using True Cons.IH by simp
  next
    case False
    then show ?thesis using Cons.IH [OF Cons.prems] by simp
  qed
qed

text \<open>
  C9. For a sorted list of unique labels and reordering on, the returned list is the
  recognized labels of the input, each once, followed by the labels that are not
  recognized, these in the order of the sorted input, hence sorted; and when
  \<open>Is Company\<close> is among the labels it is the first of the returned list. A label is
  recognized when it is one of the fixed names of the arrangement or starts with
  \<open>Phone\<close>, \<open>Pager\<close>, \<open>Fax\<close>, \<open>Email\<close>, \<open>Address\<close>, \<open>Date\<close> or \<open>Relationship\<close>.
\<close>

theorem column_ordering_enabled:
  assumes "sorted uh" and "distinct uh"
  shows "\<exists>rec. fst (custom_column_ordering True uh) = rec @ filter (\<lambda>f. \<not> recognized f) uh
           \<and> set rec = {f \<in> set uh. recognized f}
           \<and> distinct rec
           \<and> sorted (filter (\<lambda>f. \<not> recognized f) uh)
           \<and> (''Is Company'' \<in> set uh \<longrightarrow>
                (\<exists>ys. fst (custom_column_ordering True uh) = ''Is Company'' # ys))"
proof -
  let ?fo = "field_order uh"
  obtain rec where r: "fst (place ?fo [] uh) = [] @ rec" "set rec = set ?fo \<inter> set uh"
    using place_fst [OF assms(2)] by blast
  have rs: "set rec = {f \<in> set uh. recognized f}"
    using r(2) field_order_recognized [of _ uh] by auto
  have "distinct (fst (place ?fo [] uh))"
    using assms(2) by (intro place_distinct) simp_all
  then have rd: "distinct rec" using r(1) by simp
  have "filter (\<lambda>f. f \<notin> set ?fo) uh = filter (\<lambda>f. \<not> recognized f) uh"
    by (rule filter_cong) (simp_all add: field_order_recognized)
  then have s: "snd (place ?fo [] uh) = filter (\<lambda>f. \<not> recognized f) uh"
    using place_snd [OF assms(2), of ?fo "[]"] by simp
  have res: "fst (custom_column_ordering True uh) = rec @ filter (\<lambda>f. \<not> recognized f) uh"
    using r(1) s by (cases "place ?fo [] uh") (simp add: custom_column_ordering_def)
  have srt: "sorted (filter (\<lambda>f. \<not> recognized f) uh)"
    using assms(1) by (rule sorted_wrt_filter)
  have ic: "''Is Company'' \<in> set uh \<longrightarrow> (\<exists>ys. fst (custom_column_ordering True uh) = ''Is Company'' # ys)"
  proof
    assume present: "''Is Company'' \<in> set uh"
    obtain fs where fo: "?fo = ''Is Company'' # fs" using field_order_head by blast
    obtain ys where "fst (place ?fo [] uh) = ''Is Company'' # ys"
      unfolding fo using place_head [OF present] by blast
    then show "\<exists>ys. fst (custom_column_ordering True uh) = ''Is Company'' # ys"
      by (cases "place ?fo [] uh") (simp add: custom_column_ordering_def)
  qed
  from res rs rd srt ic show ?thesis by blast
qed

theorem column_ordering_enabled_witness:
  "sorted [''Is Company'', ''Note'', ''Phone: Zed'', ''Unknown'']
   \<and> distinct [''Is Company'', ''Note'', ''Phone: Zed'', ''Unknown'']
   \<and> filter (\<lambda>f. \<not> recognized f) [''Is Company'', ''Note'', ''Phone: Zed'', ''Unknown'']
       = [''Note'', ''Unknown'']
   \<and> (\<exists>rec. fst (custom_column_ordering True [''Is Company'', ''Note'', ''Phone: Zed'', ''Unknown''])
               = rec @ [''Note'', ''Unknown'']
             \<and> set rec = {''Is Company'', ''Phone: Zed''} \<and> distinct rec)
   \<and> fst (custom_column_ordering True [''Is Company'', ''Note'', ''Phone: Zed'', ''Unknown''])
       = [''Is Company'', ''Phone: Zed'', ''Note'', ''Unknown'']"
proof -
  let ?L = "[''Is Company'', ''Note'', ''Phone: Zed'', ''Unknown'']"
  have s: "sorted ?L" by code_simp
  have d: "distinct ?L" by simp
  have u: "filter (\<lambda>f. \<not> recognized f) ?L = [''Note'', ''Unknown'']" by code_simp
  have k: "{f \<in> set ?L. recognized f} = {''Is Company'', ''Phone: Zed''}"
  proof -
    have "{f \<in> set ?L. recognized f} = set (filter recognized ?L)" by auto
    also have "filter recognized ?L = [''Is Company'', ''Phone: Zed'']" by code_simp
    finally show ?thesis by simp
  qed
  have v: "fst (custom_column_ordering True ?L) = [''Is Company'', ''Phone: Zed'', ''Note'', ''Unknown'']"
    by code_simp
  obtain rec where "fst (custom_column_ordering True ?L) = rec @ filter (\<lambda>f. \<not> recognized f) ?L"
    and "set rec = {f \<in> set ?L. recognized f}" and "distinct rec"
    using column_ordering_enabled [OF s d] by blast
  then have "\<exists>rec. fst (custom_column_ordering True ?L) = rec @ [''Note'', ''Unknown'']
             \<and> set rec = {''Is Company'', ''Phone: Zed''} \<and> distinct rec"
    unfolding u k by blast
  with s d u v show ?thesis by blast
qed

subsection \<open>Lines that match no rule\<close>

text \<open>
  C7, as amended. A raw line that the photo block does not pass over and whose trimmed
  text matches no rule of the table (no prefix, not the company line, not the grouped
  pattern) appends exactly the pair of \<open>Unknown\<close> and the trimmed line, the line without
  its leading and trailing whitespace; nothing else of the state changes but the report
  list under \<open>debug\<close>. The same line twice in a row appends the same pair twice.
\<close>

theorem unknown_line_captured:
  assumes "\<not> photo_skipped st line" and "\<not> matches_rule (strip line)"
  shows "process_field cfg st line
           = Inr (st\<lparr>skip_photo := False,
                     save := save st @ [(''Unknown'', strip line)],
                     unknown := (if debug cfg then unknown st @ [strip line] else unknown st)\<rparr>)
         \<and> field_loop cfg st [line, line]
           = Inr (st\<lparr>skip_photo := False,
                     save := save st @ [(''Unknown'', strip line), (''Unknown'', strip line)],
                     unknown := (if debug cfg then unknown st @ [strip line, strip line]
                                 else unknown st)\<rparr>)"
proof -
  let ?f = "strip line"
  have cl: "classify cfg s ?f
      = Inr (s\<lparr>save := save s @ [(''Unknown'', ?f)],
                unknown := (if debug cfg then unknown s @ [?f] else unknown s)\<rparr>)" for s
  proof -
    from assms(2) have g: "vcard_grouped_field ?f = None"
      by (cases "vcard_grouped_field ?f") (auto simp: matches_rule_def)
    from assms(2) show ?thesis
      by (simp add: matches_rule_def rule_prefixes_def classify_def g)
  qed
  have np: "\<not> startswith ?f ''PHOTO;''"
    using assms(1) by (simp add: photo_skipped_def)
  have step: "\<not> (skip_photo s \<and> startswith line '' '') \<Longrightarrow> process_field cfg s line
      = Inr (s\<lparr>skip_photo := False, save := save s @ [(''Unknown'', ?f)],
                unknown := (if debug cfg then unknown s @ [?f] else unknown s)\<rparr>)" for s
    using np by (auto simp: process_field_def cl)
  have first: "process_field cfg st line
      = Inr (st\<lparr>skip_photo := False, save := save st @ [(''Unknown'', ?f)],
                unknown := (if debug cfg then unknown st @ [?f] else unknown st)\<rparr>)"
    using assms(1) by (intro step) (simp add: photo_skipped_def)
  show ?thesis
    by (simp add: first step)
qed

theorem unknown_line_captured_witness:
  "\<not> photo_skipped init_state ''X-CUSTOM:some value  ''
   \<and> \<not> matches_rule (strip ''X-CUSTOM:some value  '')
   \<and> process_field plain_config init_state ''X-CUSTOM:some value  ''
       = Inr (init_state\<lparr>save := [(''Unknown'', ''X-CUSTOM:some value'')]\<rparr>)
   \<and> field_loop plain_config init_state [''X-CUSTOM:some value  '', ''X-CUSTOM:some value  '']
       = Inr (init_state\<lparr>save := [(''Unknown'', ''X-CUSTOM:some value''),
                                    (''Unknown'', ''X-CUSTOM:some value'')]\<rparr>)"
proof -
  have h1: "\<not> photo_skipped init_state ''X-CUSTOM:some value  ''" by code_simp
  have h2: "\<not> matches_rule (strip ''X-CUSTOM:some value  '')" by code_simp
  have s: "strip ''X-CUSTOM:some value  '' = ''X-CUSTOM:some value''" by code_simp
  have nd: "\<not> debug plain_config" by (simp add: plain_config_def)
  have e1: "init_state\<lparr>skip_photo := False,
                save := save init_state @ [(''Unknown'', ''X-CUSTOM:some value'')],
                unknown := unknown init_state\<rparr>
            = init_state\<lparr>save := [(''Unknown'', ''X-CUSTOM:some value'')]\<rparr>"
    by (simp add: init_state_def)
  have e2: "init_state\<lparr>skip_photo := False,
                save := save init_state @ [(''Unknown'', ''X-CUSTOM:some value''),
                                          (''Unknown'', ''X-CUSTOM:some value'')],
                unknown := unknown init_state\<rparr>
            = init_state\<lparr>save := [(''Unknown'', ''X-CUSTOM:some value''),
                                    (''Unknown'', ''X-CUSTOM:some value'')]\<rparr>"
    by (simp add: init_state_def)
  have "process_field plain_config init_state ''X-CUSTOM:some value  ''
       = Inr (init_state\<lparr>save := [(''Unknown'', ''X-CUSTOM:some value'')]\<rparr>)
     \<and> field_loop plain_config init_state [''X-CUSTOM:some value  '', ''X-CUSTOM:some value  '']
       = Inr (init_state\<lparr>save := [(''Unknown'', ''X-CUSTOM:some value''),
                                    (''Unknown'', ''X-CUSTOM:some value'')]\<rparr>)"
    using unknown_line_captured [OF h1 h2, of plain_config]
    by (simp only: s nd if_False e1 e2)
  with h1 h2 show ?thesis by blast
qed

text \<open>
  C7 as stated fails: the line \<^verbatim>\<open>  X-CUSTOM:v \<close>, with two spaces before and one after,
  is not empty, is not passed over and matches no rule, raw or trimmed; the pair saved
  for it holds the trimmed text \<^verbatim>\<open>X-CUSTOM:v\<close>, not the line.
\<close>

theorem unknown_line_saved_trimmed:
  "\<not> photo_skipped init_state ''  X-CUSTOM:v ''
   \<and> \<not> matches_rule ''  X-CUSTOM:v '' \<and> \<not> matches_rule (strip ''  X-CUSTOM:v '')
   \<and> process_field plain_config init_state ''  X-CUSTOM:v ''
       = Inr (init_state\<lparr>save := [(''Unknown'', ''X-CUSTOM:v'')]\<rparr>)
   \<and> process_field plain_config init_state ''  X-CUSTOM:v ''
       \<noteq> Inr (init_state\<lparr>save := [(''Unknown'', ''  X-CUSTOM:v '')]\<rparr>)
   \<and> parse_vcard plain_config
        (''BEGIN:VCARD'' @ [newline] @ ''  X-CUSTOM:v '' @ [newline] @ ''END:VCARD'')
       = Inr [[(''Unknown'', ''X-CUSTOM:v'')]]"
  by code_simp

subsection \<open>The rule for telephone lines\<close>

lemma tel_label_select_spec: "tel_label_select labels = tel_label_spec (set labels)"
  by (simp add: tel_label_select_def tel_label_spec_def select_loop_def)

lemma tel_single_labels_acc:
  "foldl (\<lambda>labels entry.
              case vcard_comm_type_single (strip entry) of
                Some g \<Rightarrow> if capitalize g \<noteq> ''Voice'' then labels @ [capitalize g] else labels
              | None \<Rightarrow> labels) acc parts = acc @ tel_types parts"
  by (induction parts arbitrary: acc)
     (auto simp: tel_types_def List.map_filter_simps split: option.splits)

lemma tel_single_labels_types: "tel_single_labels parts = tel_types parts"
  using tel_single_labels_acc [of "[]" parts] by (simp add: tel_single_labels_def)

lemma foldl_tel_entry:
  "snd (foldl (tel_entry cfg) (labels, out) parts) = out @ tel_spec cfg labels parts"
proof (induction parts arbitrary: labels out)
  case Nil
  then show ?case by simp
next
  case (Cons entry parts)
  show ?case
  proof (cases "vcard_comm_type_compound (strip entry)")
    case None
    then show ?thesis using Cons [of labels out] by (simp add: tel_entry_def)
  next
    case (Some g)
    obtain g1 g2 where g: "g = (g1, g2)" by (cases g)
    show ?thesis
      using Some g Cons
      by (simp add: tel_entry_def Let_def tel_label_select_spec)
  qed
qed

lemma rule_TEL_spec:
  assumes "startswith field ''TEL;''"
  shows "rule_TEL cfg field
    = Inr (tel_spec cfg (tel_types (split (strip (drop 4 field)) '';''))
             (split (strip (drop 4 field)) '';''))"
  by (simp add: rule_TEL_def second_stripped_TEL [OF assms] bind_err_def Let_def
        foldl_tel_entry tel_single_labels_types)

lemma length_tel_spec:
  "length (tel_spec cfg types parts)
     = length (tel_params parts) + (if preferred cfg then length (tel_pref_params parts) else 0)"
  by (induction parts arbitrary: types)
     (auto simp: tel_params_def tel_pref_params_def Let_def split: option.splits)


lemma classify_tel_line:
  assumes "startswith field ''TEL;''"
  shows "classify cfg st field
    = Inr (st\<lparr>save := save st @ tel_spec cfg (tel_types (split (strip (drop 4 field)) '';''))
                                     (split (strip (drop 4 field)) '';'')\<rparr>)"
  by (simp add: classify_TEL [OF assms] rule_TEL_spec [OF assms] emit_def bind_err_def)

lemma dropWhile_keep_suffix:
  "zs \<noteq> [] \<Longrightarrow> \<not> P (hd zs) \<Longrightarrow> \<exists>X. dropWhile P (ys @ zs) = X @ zs"
proof (induction ys)
  case Nil
  then show ?case by (cases zs) auto
next
  case (Cons y ys)
  then show ?case by (cases "P y") auto
qed

lemma strip_keeps_prefix:
  assumes "p \<noteq> []" and "\<not> is_space (hd p)" and "\<not> is_space (last p)"
  shows "\<exists>r'. strip (p @ r) = p @ r'"
proof -
  have 1: "dropWhile is_space (p @ r) = p @ r"
    using assms(1,2) by (cases p) auto
  have "rev p \<noteq> []" "\<not> is_space (hd (rev p))"
    using assms(1,3) by (simp_all add: hd_rev)
  then obtain X where "dropWhile is_space (rev r @ rev p) = X @ rev p"
    using dropWhile_keep_suffix by blast
  then have "strip (p @ r) = p @ rev X"
    by (simp add: strip_def 1)
  then show ?thesis ..
qed

lemma startswith_strip:
  assumes "startswith s p" and "p \<noteq> []" and "\<not> is_space (hd p)" and "\<not> is_space (last p)"
  shows "startswith (strip s) p"
proof -
  from assms(1) obtain r where "s = p @ r" by (auto simp: startswith_append)
  with strip_keeps_prefix [OF assms(2-4), of r] show ?thesis
    by (auto simp: startswith_append)
qed

lemma strip_TEL: "startswith l ''TEL;'' \<Longrightarrow> startswith (strip l) ''TEL;''"
  by (rule startswith_strip) (simp_all add: is_space_def)

lemma strip_PHOTO: "startswith l ''PHOTO;'' \<Longrightarrow> startswith (strip l) ''PHOTO;''"
  by (rule startswith_strip) (simp_all add: is_space_def)

lemma continuation_skipped:
  assumes "skip_photo s" and "startswith l '' ''"
  shows "process_field cfg s l = Inr s"
  using assms by (simp add: process_field_def)

lemma continuations_skipped:
  "\<forall>l \<in> set conts. startswith l '' '' \<Longrightarrow> skip_photo s \<Longrightarrow>
     field_loop cfg s (conts @ rest) = field_loop cfg s rest"
  by (induction conts) (simp_all add: continuation_skipped)

lemma process_tel_line:
  assumes "startswith tel ''TEL;''"
  shows "process_field cfg s tel
    = Inr (s\<lparr>skip_photo := False,
              save := save s @ tel_spec cfg (tel_types (split (strip (drop 4 (strip tel))) '';''))
                                 (split (strip (drop 4 (strip tel))) '';'')\<rparr>)"
proof -
  have t: "startswith (strip tel) ''TEL;''" using assms by (rule strip_TEL)
  then obtain r where r: "strip tel = ''TEL;'' @ r" by (auto simp: startswith_append)
  have np: "\<not> startswith (strip tel) ''PHOTO;''" by (simp add: r)
  from assms obtain r' where "tel = ''TEL;'' @ r'" by (auto simp: startswith_append)
  then have ns: "\<not> startswith tel '' ''" by simp
  show ?thesis
    by (simp add: process_field_def np ns classify_tel_line [OF t])
qed

text \<open>
  C4, as amended. A line that starts with \<^verbatim>\<open>TEL;\<close> never fails. Its parameters are the
  pieces between semicolons of the trimmed text after \<^verbatim>\<open>TEL;\<close>. The parser collects the
  capitalized single-token types except \<open>Voice\<close> and, for each parameter of the form
  \<^verbatim>\<open>type=<letters>:<value>\<close> in order, adds that parameter's type and appends the pair of
  the label chosen by \<^const>\<open>tel_label_spec\<close> and the value after the optional phone
  reformatting, with the preferred duplicate when it applies. The labels are \<open>Pager\<close>,
  \<open>Fax: \<dots>\<close> or \<open>Phone: \<dots>\<close>, or empty; among \<open>Home\<close>, \<open>Work\<close>, \<open>Other\<close>, \<open>Main\<close>
  the one listed last that is present is chosen; a line without such a parameter appends
  nothing.
\<close>

theorem tel_rule_refines:
  assumes "startswith field ''TEL;''"
  shows "classify cfg st field
    = Inr (st\<lparr>save := save st @ tel_spec cfg (tel_types (split (strip (drop 4 field)) '';''))
                                     (split (strip (drop 4 field)) '';'')\<rparr>)"
  using assms by (rule classify_tel_line)

theorem tel_rule_refines_witness:
  "startswith ''TEL;type=CELL;type=VOICE;type=pref:555-123-4567'' ''TEL;''
   \<and> classify full_config init_state ''TEL;type=CELL;type=VOICE;type=pref:555-123-4567''
       = Inr (init_state\<lparr>save := [(''Phone: Cell'', ''555-123-4567''),
                                    (''Phone: Cell (Preferred)'', ''555-123-4567'')]\<rparr>)"
proof -
  have h: "startswith ''TEL;type=CELL;type=VOICE;type=pref:555-123-4567'' ''TEL;''"
    by code_simp
  have v: "tel_spec full_config
             (tel_types (split (strip (drop 4 ''TEL;type=CELL;type=VOICE;type=pref:555-123-4567'')) '';''))
             (split (strip (drop 4 ''TEL;type=CELL;type=VOICE;type=pref:555-123-4567'')) '';'')
           = [(''Phone: Cell'', ''555-123-4567''), (''Phone: Cell (Preferred)'', ''555-123-4567'')]"
    by code_simp
  show ?thesis
    using h tel_rule_refines [OF h, of full_config init_state]
    by (simp only: v) (simp add: init_state_def)
qed

text \<open>
  C4 as stated fails: a pager number is saved under \<open>Pager\<close>, not under \<open>Phone: Pager\<close>;
  with the types \<open>Home\<close> and \<open>Work\<close> the label is \<open>Phone: Work\<close>; and a line whose
  parameter is written \<^verbatim>\<open>TYPE=CELL\<close> appends no pair at all.
\<close>

theorem tel_rule_label_instances:
  "classify plain_config init_state ''TEL;type=PAGER:555-1234''
     = Inr (init_state\<lparr>save := [(''Pager'', ''555-1234'')]\<rparr>)
   \<and> classify plain_config init_state ''TEL;type=HOME;type=WORK:555-1234''
     = Inr (init_state\<lparr>save := [(''Phone: Work'', ''555-1234'')]\<rparr>)
   \<and> classify plain_config init_state ''TEL;TYPE=CELL:555-1234'' = Inr init_state"
  by code_simp

text \<open>
  C10. The line \<^verbatim>\<open>TEL;type=CUSTOM:555-1234\<close>, whose only type is none of the known ones,
  appends a pair whose label is the empty string, whatever the configuration and the state.
\<close>

theorem tel_custom_type_empty_label:
  "process_field cfg st ''TEL;type=CUSTOM:555-1234''
     = Inr (st\<lparr>skip_photo := False, save := save st @ [([], ''555-1234'')]\<rparr>)
   \<and> parse_vcard plain_config
        (''BEGIN:VCARD'' @ [newline] @ ''TEL;type=CUSTOM:555-1234'' @ [newline] @ ''END:VCARD'')
     = Inr [[([], ''555-1234'')]]"
proof -
  have h: "startswith ''TEL;type=CUSTOM:555-1234'' ''TEL;''" by simp
  have p: "split (strip (drop 4 (strip ''TEL;type=CUSTOM:555-1234''))) '';'' = [''type=CUSTOM:555-1234'']"
    by code_simp
  have c: "vcard_comm_type_compound (strip ''type=CUSTOM:555-1234'') = Some (''CUSTOM'', ''555-1234'')"
    by code_simp
  have t: "tel_types [''type=CUSTOM:555-1234''] = [''Custom'']" by code_simp
  have cap: "capitalize ''CUSTOM'' = ''Custom''" by code_simp
  have lab: "tel_label_spec (set [''Custom'', ''Custom'']) = []" by code_simp
  have low: "lower ''CUSTOM'' \<noteq> ''pref''" by code_simp
  have ph: "phone_format ''555-1234'' = None" by code_simp
  have f: "format_phone cfg ''555-1234'' = ''555-1234''"
    by (simp only: format_phone_def ph) simp
  have sp: "tel_spec cfg [''Custom''] [''type=CUSTOM:555-1234''] = [([], ''555-1234'')]"
    using lab by (simp add: c cap low f Let_def)
  have 1: "process_field cfg st ''TEL;type=CUSTOM:555-1234''
     = Inr (st\<lparr>skip_photo := False, save := save st @ [([], ''555-1234'')]\<rparr>)"
    by (simp only: process_tel_line [OF h] p t sp)
  have 2: "parse_vcard plain_config
        (''BEGIN:VCARD'' @ [newline] @ ''TEL;type=CUSTOM:555-1234'' @ [newline] @ ''END:VCARD'')
     = Inr [[([], ''555-1234'')]]"
    by code_simp
  from 1 2 show ?thesis ..
qed

subsection \<open>The photo block\<close>

text \<open>
  C6, as amended. A line that begins with \<^verbatim>\<open>PHOTO;\<close> and the lines after it that start
  with a space append nothing and leave the skip flag set. The first line that does not
  start with a space, here one that begins with \<^verbatim>\<open>TEL;\<close>, clears the flag and is
  classified as it is with the flag clear. It appends one pair for each of its parameters
  of the form \<^verbatim>\<open>type=<letters>:<value>\<close> and one more for each of these whose type is
  \<open>pref\<close> when preferred duplication is on: one or two pairs when it has one such
  parameter, none when it has none.
\<close>

theorem photo_block_skipped:
  assumes "startswith photo ''PHOTO;''"
    and "\<forall>l \<in> set conts. startswith l '' ''"
    and "startswith tel ''TEL;''"
  shows "field_loop cfg st (photo # conts) = Inr (st\<lparr>skip_photo := True\<rparr>)
    \<and> process_field cfg (st\<lparr>skip_photo := True\<rparr>) tel
        = process_field cfg (st\<lparr>skip_photo := False\<rparr>) tel
    \<and> field_loop cfg st (photo # conts @ [tel])
        = Inr (st\<lparr>skip_photo := False,
                  save := save st
                    @ tel_spec cfg (tel_types (split (strip (drop 4 (strip tel))) '';''))
                        (split (strip (drop 4 (strip tel))) '';'')\<rparr>)
    \<and> length (tel_spec cfg (tel_types (split (strip (drop 4 (strip tel))) '';''))
                (split (strip (drop 4 (strip tel))) '';''))
        = length (tel_params (split (strip (drop 4 (strip tel))) '';''))
          + (if preferred cfg
             then length (tel_pref_params (split (strip (drop 4 (strip tel))) '';'')) else 0)"
proof -
  have ph: "process_field cfg st photo = Inr (st\<lparr>skip_photo := True\<rparr>)"
    using strip_PHOTO [OF assms(1)] by (simp add: process_field_def)
  have block: "field_loop cfg st (photo # conts @ rest) = field_loop cfg (st\<lparr>skip_photo := True\<rparr>) rest"
    for rest
    using continuations_skipped [OF assms(2), of "st\<lparr>skip_photo := True\<rparr>" cfg rest]
    by (simp add: ph)
  have 1: "field_loop cfg st (photo # conts) = Inr (st\<lparr>skip_photo := True\<rparr>)"
    using block [of "[]"] by simp
  have 2: "process_field cfg (st\<lparr>skip_photo := True\<rparr>) tel
        = process_field cfg (st\<lparr>skip_photo := False\<rparr>) tel"
    by (simp add: process_tel_line [OF assms(3)])
  have 3: "field_loop cfg st (photo # conts @ [tel])
        = Inr (st\<lparr>skip_photo := False,
                  save := save st
                    @ tel_spec cfg (tel_types (split (strip (drop 4 (strip tel))) '';''))
                        (split (strip (drop 4 (strip tel))) '';'')\<rparr>)"
  proof -
    have "field_loop cfg st (photo # conts @ [tel])
        = field_loop cfg (st\<lparr>skip_photo := True\<rparr>) [tel]"
      by (rule block)
    also have "\<dots> = Inr (st\<lparr>skip_photo := False,
                  save := save st
                    @ tel_spec cfg (tel_types (split (strip (drop 4 (strip tel))) '';''))
                        (split (strip (drop 4 (strip tel))) '';'')\<rparr>)"
      by (simp add: process_tel_line [OF assms(3)])
    finally show ?thesis .
  qed
  from 1 2 3 length_tel_spec show ?thesis by blast
qed

theorem photo_block_skipped_witness:
  "startswith ''PHOTO;ENCODING=b;TYPE=JPEG:/9j/4AAQSkZJRg'' ''PHOTO;''
   \<and> startswith '' ABAQAAAQABAAD/2wBD'' '' '' \<and> startswith '' AAgGBgcGBQgHBwcJ'' '' ''
   \<and> startswith ''TEL;type=CELL;type=VOICE;type=pref:555-123-4567'' ''TEL;''
   \<and> field_loop full_config init_state
        [''PHOTO;ENCODING=b;TYPE=JPEG:/9j/4AAQSkZJRg'', '' ABAQAAAQABAAD/2wBD'',
         '' AAgGBgcGBQgHBwcJ'', ''TEL;type=CELL;type=VOICE;type=pref:555-123-4567'']
       = Inr (init_state\<lparr>save := [(''Phone: Cell'', ''555-123-4567''),
                                    (''Phone: Cell (Preferred)'', ''555-123-4567'')]\<rparr>)"
proof -
  have h1: "startswith ''PHOTO;ENCODING=b;TYPE=JPEG:/9j/4AAQSkZJRg'' ''PHOTO;''" by code_simp
  have h2: "\<forall>l \<in> set ['' ABAQAAAQABAAD/2wBD'', '' AAgGBgcGBQgHBwcJ'']. startswith l '' ''"
    by simp
  have h3: "startswith ''TEL;type=CELL;type=VOICE;type=pref:555-123-4567'' ''TEL;''" by code_simp
  have v: "tel_spec full_config
      (tel_types (split (strip (drop 4 (strip ''TEL;type=CELL;type=VOICE;type=pref:555-123-4567''))) '';''))
      (split (strip (drop 4 (strip ''TEL;type=CELL;type=VOICE;type=pref:555-123-4567''))) '';'')
    = [(''Phone: Cell'', ''555-123-4567''), (''Phone: Cell (Preferred)'', ''555-123-4567'')]"
    by code_simp
  have r: "field_loop full_config init_state
        (''PHOTO;ENCODING=b;TYPE=JPEG:/9j/4AAQSkZJRg''
         # ['' ABAQAAAQABAAD/2wBD'', '' AAgGBgcGBQgHBwcJ'']
         @ [''TEL;type=CELL;type=VOICE;type=pref:555-123-4567''])
       = Inr (init_state\<lparr>skip_photo := False,
                save := save init_state @ [(''Phone: Cell'', ''555-123-4567''),
                                    (''Phone: Cell (Preferred)'', ''555-123-4567'')]\<rparr>)"
    using photo_block_skipped [OF h1 h2 h3, of full_config init_state] by (simp only: v)
  have "field_loop full_config init_state
        [''PHOTO;ENCODING=b;TYPE=JPEG:/9j/4AAQSkZJRg'', '' ABAQAAAQABAAD/2wBD'',
         '' AAgGBgcGBQgHBwcJ'', ''TEL;type=CELL;type=VOICE;type=pref:555-123-4567'']
       = Inr (init_state\<lparr>save := [(''Phone: Cell'', ''555-123-4567''),
                                    (''Phone: Cell (Preferred)'', ''555-123-4567'')]\<rparr>)"
    using r by (simp add: init_state_def)
  moreover have "startswith '' ABAQAAAQABAAD/2wBD'' '' ''" "startswith '' AAgGBgcGBQgHBwcJ'' '' ''"
    by simp_all
  ultimately show ?thesis using h1 h3 by blast
qed

text \<open>
  C6 as stated fails in its count: after a photo block the line \<^verbatim>\<open>TEL;TYPE=CELL:555-1234\<close>
  is classified with the flag clear and appends no pair, neither one nor two.
\<close>

theorem photo_block_tel_no_pair:
  "field_loop plain_config init_state
     [''PHOTO;ENCODING=b;TYPE=JPEG:/9j/4AAQSkZJRg'', '' ABAQAAAQABAAD/2wBD'',
      ''TEL;TYPE=CELL:555-1234'']
   = Inr init_state
   \<and> parse_vcard full_config
       (''BEGIN:VCARD'' @ [newline] @ ''PHOTO;ENCODING=b;TYPE=JPEG:/9j/4AAQSkZJRg'' @ [newline]
        @ '' ABAQAAAQABAAD/2wBD'' @ [newline] @ ''TEL;TYPE=CELL:555-1234'' @ [newline]
        @ ''END:VCARD'')
     = Inr [[]]"
  by code_simp

subsection \<open>Lines that match a rule and are malformed for it\<close>

lemma emit_labels:
  assumes "emit st r = Inr st'" and "\<And>ps. r = Inr ps \<Longrightarrow> \<forall>p \<in> set ps. fst p \<noteq> ''Unknown''"
  shows "\<exists>ps. save st' = save st @ ps \<and> (\<forall>p \<in> set ps. fst p \<noteq> ''Unknown'')"
  using assms by (cases r) (auto simp: emit_def bind_err_def)

lemma rule_N_labels: "rule_N field = Inr ps \<Longrightarrow> \<forall>p \<in> set ps. fst p \<noteq> ''Unknown''"
  by (auto simp: rule_N_def bind_err_def Let_def split: sum.splits dest!: nonempty_pair_label)

lemma rule_ORG_labels: "rule_ORG field = Inr ps \<Longrightarrow> \<forall>p \<in> set ps. fst p \<noteq> ''Unknown''"
  by (auto simp: rule_ORG_def bind_err_def Let_def split: sum.splits dest!: nonempty_pair_label)

lemma rule_value_labels:
  "label \<noteq> ''Unknown'' \<Longrightarrow> rule_value label field = Inr ps \<Longrightarrow> \<forall>p \<in> set ps. fst p \<noteq> ''Unknown''"
  by (auto simp: rule_value_def bind_err_def split: sum.splits)

lemma rule_EMAIL_labels: "rule_EMAIL cfg field = Inr ps \<Longrightarrow> \<forall>p \<in> set ps. fst p \<noteq> ''Unknown''"
  by (auto simp: rule_EMAIL_def email_entry_def bind_err_def Let_def
           split: sum.splits option.splits if_splits)

lemma tel_label_spec_known:
  "tel_label_spec L \<noteq> ''Unknown''" "tel_label_spec L @ '' (Preferred)'' \<noteq> ''Unknown''"
  by (simp_all add: tel_label_spec_def)

lemma tel_spec_labels: "p \<in> set (tel_spec cfg types parts) \<Longrightarrow> fst p \<noteq> ''Unknown''"
  by (induction parts arbitrary: types)
     (auto simp: Let_def tel_label_spec_known split: option.splits if_splits)

lemma rule_TEL_labels:
  "startswith field ''TEL;'' \<Longrightarrow> rule_TEL cfg field = Inr ps \<Longrightarrow> \<forall>p \<in> set ps. fst p \<noteq> ''Unknown''"
  by (auto simp: rule_TEL_spec dest: tel_spec_labels)

lemma address_pairs_labels: "address_pairs cfg x = Inr ps \<Longrightarrow> \<forall>p \<in> set ps. fst p \<noteq> ''Unknown''"
  by (auto simp: address_pairs_def bind_err_def Let_def split: sum.splits option.splits if_splits)

lemma rule_typed_labels:
  "(\<And>x. pre @ x \<noteq> ''Unknown'') \<Longrightarrow> rule_typed pre field = Inr ps \<Longrightarrow> \<forall>p \<in> set ps. fst p \<noteq> ''Unknown''"
  by (auto simp: rule_typed_def bind_err_def Let_def split: sum.splits)

lemma rule_BDAY_labels: "\<forall>p \<in> set (rule_BDAY field). fst p \<noteq> ''Unknown''"
  by (simp add: rule_BDAY_def)


lemma classify_rule_no_unknown:
  assumes m: "matches_rule field" and c: "classify cfg st field = Inr st'"
  shows "\<exists>ps. save st' = save st @ ps \<and> (\<forall>p \<in> set ps. fst p \<noteq> ''Unknown'')"
proof -
  let ?G = "\<exists>ps. save st' = save st @ ps \<and> (\<forall>p \<in> set ps. fst p \<noteq> ''Unknown'')"
  have same: "Inr st = Inr st' \<Longrightarrow> ?G" by auto
  have N: "emit st (rule_N field) = Inr st' \<Longrightarrow> ?G"
    by (erule emit_labels) (rule rule_N_labels)
  have ORG: "emit st (rule_ORG field) = Inr st' \<Longrightarrow> ?G"
    by (erule emit_labels) (rule rule_ORG_labels)
  have V: "emit st (rule_value label field) = Inr st' \<Longrightarrow> label \<noteq> ''Unknown'' \<Longrightarrow> ?G" for label
    by (erule emit_labels) (rule rule_value_labels)
  have EMAIL: "emit st (rule_EMAIL cfg field) = Inr st' \<Longrightarrow> ?G"
    by (erule emit_labels) (rule rule_EMAIL_labels)
  have TEL: "startswith field ''TEL;'' \<Longrightarrow> emit st (rule_TEL cfg field) = Inr st' \<Longrightarrow> ?G"
    by (erule emit_labels) (rule rule_TEL_labels)
  have ADR: "emit st (address_pairs cfg field) = Inr st' \<Longrightarrow> ?G"
    by (erule emit_labels) (rule address_pairs_labels)
  have T: "emit st (rule_typed pre field) = Inr st' \<Longrightarrow> (\<And>x. pre @ x \<noteq> ''Unknown'') \<Longrightarrow> ?G" for pre
    by (erule emit_labels) (rule rule_typed_labels)
  have BDAY: "emit st (Inr (rule_BDAY field)) = Inr st' \<Longrightarrow> ?G"
    by (erule emit_labels) (use rule_BDAY_labels in auto)
  have IC: "emit st (Inr [(''Is Company'', ''X'')]) = Inr st' \<Longrightarrow> ?G"
    by (erule emit_labels) auto
  have FN: "bind_err (second_stripped field CHR '':'') (\<lambda>v.
          Inr (st\<lparr>save := save st @ [(''Name: Full'', v)],
                  unknown_name := (if debug cfg then ''Name (Full): '' @ v else unknown_name st)\<rparr>))
        = Inr st' \<Longrightarrow> ?G"
    by (auto simp: bind_err_def split: sum.splits)
  from m have m': "list_ex (startswith field) rule_prefixes \<or> field = ''X-ABShowAs:COMPANY''
      \<or> vcard_grouped_field field \<noteq> None"
    by (simp add: matches_rule_def)
  show ?thesis
  proof (cases "list_ex (startswith field) rule_prefixes \<or> field = ''X-ABShowAs:COMPANY''")
    case True
    with c show ?thesis
      unfolding classify_def rule_prefixes_def
      by (simp del: startswith_Cons_Cons split: if_split_asm)
         (erule same N ORG V EMAIL TEL ADR T BDAY IC FN; simp)+
  next
    case False
    with m' have g: "vcard_grouped_field field \<noteq> None" by blast
    from False c g show ?thesis
      unfolding classify_def rule_prefixes_def
      by (auto simp del: startswith_Cons_Cons split: option.splits)
  qed
qed


lemma field_loop_fails:
  assumes "\<forall>s. \<exists>e. process_field cfg s l = Inl e" and "l \<in> set lines"
  shows "\<exists>e. field_loop cfg st lines = Inl e"
  using assms(2)
proof (induction lines arbitrary: st)
  case Nil
  then show ?case by simp
next
  case (Cons x xs)
  show ?case
  proof (cases "process_field cfg st x")
    case (Inl e)
    then show ?thesis by simp
  next
    case (Inr st1)
    have "x \<noteq> l"
    proof
      assume "x = l"
      with assms(1) obtain e where "process_field cfg st x = Inl e" by blast
      with Inr show False by simp
    qed
    with Cons.prems have "l \<in> set xs" by simp
    from Cons.IH [OF this, of st1] Inr show ?thesis by simp
  qed
qed

lemma entries_loop_fails:
  assumes "\<exists>e. parse_entry cfg entry = Inl e" and "entry \<in> set es"
  shows "\<exists>e. entries_loop cfg es = Inl e"
  using assms(2)
proof (induction es)
  case Nil
  then show ?case by simp
next
  case (Cons x xs)
  show ?case
  proof (cases "parse_entry cfg x")
    case (Inl e)
    then show ?thesis by (simp add: bind_err_def)
  next
    case (Inr sv)
    have "x \<noteq> entry"
    proof
      assume "x = entry"
      with assms(1) obtain e where "parse_entry cfg x = Inl e" by blast
      with Inr show False by simp
    qed
    with Cons.prems have "entry \<in> set xs" by simp
    from Cons.IH [OF this] obtain e where "entries_loop cfg xs = Inl e" by blast
    with Inr show ?thesis by (simp add: bind_err_def)
  qed
qed

lemma parse_aborts:
  assumes "entry \<in> set (split_entries content)" and "line \<in> set (splitlines entry)"
    and "\<forall>s. \<exists>e. process_field cfg s line = Inl e"
  shows "\<exists>e. parse_vcard cfg content = Inl e"
proof -
  obtain e where "field_loop cfg init_state (splitlines entry) = Inl e"
    using field_loop_fails [OF assms(3) assms(2)] by blast
  then have "\<exists>e. parse_entry cfg entry = Inl e"
    by (simp add: parse_entry_def bind_err_def)
  then show ?thesis
    unfolding parse_vcard_def using assms(1) by (rule entries_loop_fails)
qed

lemma strip_N: "startswith l ''N:'' \<Longrightarrow> startswith (strip l) ''N:''"
  by (rule startswith_strip) (simp_all add: is_space_def)

lemma strip_ADR: "startswith l ''ADR;'' \<Longrightarrow> startswith (strip l) ''ADR;''"
  by (rule startswith_strip) (simp_all add: is_space_def)

lemma process_classified:
  assumes "startswith line (c # p)" and "c \<noteq> CHR '' ''" and "\<not> startswith (strip line) ''PHOTO;''"
  shows "process_field cfg st line = classify cfg (st\<lparr>skip_photo := False\<rparr>) (strip line)"
proof -
  from assms(1) obtain r where "line = (c # p) @ r" by (auto simp: startswith_append)
  with assms(2) have "\<not> startswith line '' ''" by simp
  with assms(3) show ?thesis by (simp add: process_field_def)
qed

lemma process_N_short:
  assumes "startswith line ''N:''" and "length (split (strip (drop 2 (strip line))) '';'') < 5"
  shows "process_field cfg st line = Inl IndexError"
proof -
  have n: "startswith (strip line) ''N:''" using assms(1) by (rule strip_N)
  then obtain r where "strip line = ''N:'' @ r" by (auto simp: startswith_append)
  then have "\<not> startswith (strip line) ''PHOTO;''" by simp
  then have "process_field cfg st line = classify cfg (st\<lparr>skip_photo := False\<rparr>) (strip line)"
    using assms(1) by (intro process_classified [of line "CHR ''N''" "'':''"]) simp_all
  then show ?thesis
    by (simp add: classify_N [OF n] emit_def rule_N_short [OF n assms(2)] bind_err_def)
qed

lemma process_ADR_unmatched:
  assumes "startswith line ''ADR;''" and "vcard_comm_type_pref (strip (drop 4 (strip line))) = None"
  shows "process_field cfg st line = Inl AttributeError"
proof -
  have n: "startswith (strip line) ''ADR;''" using assms(1) by (rule strip_ADR)
  then obtain r where "strip line = ''ADR;'' @ r" by (auto simp: startswith_append)
  then have "\<not> startswith (strip line) ''PHOTO;''" by simp
  then have "process_field cfg st line = classify cfg (st\<lparr>skip_photo := False\<rparr>) (strip line)"
    using assms(1) by (intro process_classified [of line "CHR ''A''" "''DR;''"]) simp_all
  then show ?thesis
    using assms(2)
    by (simp add: classify_ADR [OF n] emit_def address_pairs_def second_stripped_ADR [OF n] bind_err_def)
qed

text \<open>
  C1, as amended. A line that matches a rule of the table is handled by that rule alone:
  when its classification returns, no pair it appended is labelled \<open>Unknown\<close>, and when
  the rule raises, nothing catches the error. An \<^verbatim>\<open>N:\<close> line whose remainder splits
  into fewer than five components raises \<^verbatim>\<open>IndexError\<close>; with five or more it appends
  the name pairs of those of its first five components that are not empty. An \<^verbatim>\<open>ADR;\<close>
  line whose parameter block does not match the type pattern raises
  \<^verbatim>\<open>AttributeError\<close>. Both hold of the trimmed text and of the raw line in every state
  of the loop, and a line of an entry that raises in every state makes the parse of the
  whole text fail.
\<close>

theorem malformed_line_raises:
  "(startswith field ''N:'' \<and> length (split (strip (drop 2 field)) '';'') < 5
      \<longrightarrow> classify cfg st field = Inl IndexError)
   \<and> (startswith field ''N:'' \<and> 5 \<le> length (split (strip (drop 2 field)) '';'')
      \<longrightarrow> classify cfg st field
            = Inr (st\<lparr>save := save st
                     @ nonempty_pair ''Name: Last'' (split (strip (drop 2 field)) '';'' ! 0)
                     @ nonempty_pair ''Name: First'' (split (strip (drop 2 field)) '';'' ! 1)
                     @ nonempty_pair ''Name: Middle'' (split (strip (drop 2 field)) '';'' ! 2)
                     @ nonempty_pair ''Name: Prefix'' (split (strip (drop 2 field)) '';'' ! 3)
                     @ nonempty_pair ''Name: Suffix'' (split (strip (drop 2 field)) '';'' ! 4)\<rparr>))
   \<and> (startswith field ''ADR;'' \<and> vcard_comm_type_pref (strip (drop 4 field)) = None
      \<longrightarrow> classify cfg st field = Inl AttributeError)
   \<and> (matches_rule field \<and> classify cfg st field = Inr st'
      \<longrightarrow> (\<exists>ps. save st' = save st @ ps \<and> (\<forall>p \<in> set ps. fst p \<noteq> ''Unknown'')))
   \<and> (startswith line ''N:'' \<and> length (split (strip (drop 2 (strip line))) '';'') < 5
      \<longrightarrow> process_field cfg st line = Inl IndexError)
   \<and> (startswith line ''ADR;'' \<and> vcard_comm_type_pref (strip (drop 4 (strip line))) = None
      \<longrightarrow> process_field cfg st line = Inl AttributeError)
   \<and> (entry \<in> set (split_entries content) \<and> line \<in> set (splitlines entry)
        \<and> (\<forall>s. \<exists>e. process_field cfg s line = Inl e)
      \<longrightarrow> (\<exists>e. parse_vcard cfg content = Inl e))"
proof (intro conjI impI)
  assume "startswith field ''N:'' \<and> length (split (strip (drop 2 field)) '';'') < 5"
  then show "classify cfg st field = Inl IndexError"
    by (simp add: classify_N emit_def rule_N_short bind_err_def)
next
  assume "startswith field ''N:'' \<and> 5 \<le> length (split (strip (drop 2 field)) '';'')"
  then show "classify cfg st field
            = Inr (st\<lparr>save := save st
                     @ nonempty_pair ''Name: Last'' (split (strip (drop 2 field)) '';'' ! 0)
                     @ nonempty_pair ''Name: First'' (split (strip (drop 2 field)) '';'' ! 1)
                     @ nonempty_pair ''Name: Middle'' (split (strip (drop 2 field)) '';'' ! 2)
                     @ nonempty_pair ''Name: Prefix'' (split (strip (drop 2 field)) '';'' ! 3)
                     @ nonempty_pair ''Name: Suffix'' (split (strip (drop 2 field)) '';'' ! 4)\<rparr>)"
    by (simp add: classify_N emit_def rule_N_long bind_err_def Let_def)
next
  assume "startswith field ''ADR;'' \<and> vcard_comm_type_pref (strip (drop 4 field)) = None"
  then show "classify cfg st field = Inl AttributeError"
    by (simp add: classify_ADR emit_def address_pairs_def second_stripped_ADR bind_err_def)
next
  assume "matches_rule field \<and> classify cfg st field = Inr st'"
  then show "\<exists>ps. save st' = save st @ ps \<and> (\<forall>p \<in> set ps. fst p \<noteq> ''Unknown'')"
    using classify_rule_no_unknown by blast
next
  assume "startswith line ''N:'' \<and> length (split (strip (drop 2 (strip line))) '';'') < 5"
  then show "process_field cfg st line = Inl IndexError"
    using process_N_short by blast
next
  assume "startswith line ''ADR;'' \<and> vcard_comm_type_pref (strip (drop 4 (strip line))) = None"
  then show "process_field cfg st line = Inl AttributeError"
    using process_ADR_unmatched by blast
next
  assume "entry \<in> set (split_entries content) \<and> line \<in> set (splitlines entry)
        \<and> (\<forall>s. \<exists>e. process_field cfg s line = Inl e)"
  then show "\<exists>e. parse_vcard cfg content = Inl e"
    using parse_aborts by blast
qed

theorem malformed_line_raises_witness:
  "(startswith ''N:Doe'' ''N:'' \<and> length (split (strip (drop 2 ''N:Doe'')) '';'') < 5
    \<and> classify plain_config init_state ''N:Doe'' = Inl IndexError)
   \<and> (startswith ''N:Doe;John;;;'' ''N:''
      \<and> 5 \<le> length (split (strip (drop 2 ''N:Doe;John;;;'')) '';'')
      \<and> classify plain_config init_state ''N:Doe;John;;;''
          = Inr (init_state\<lparr>save := [(''Name: Last'', ''Doe''), (''Name: First'', ''John'')]\<rparr>))
   \<and> (startswith ''ADR;HOME:;;12 Main St'' ''ADR;''
      \<and> vcard_comm_type_pref (strip (drop 4 ''ADR;HOME:;;12 Main St'')) = None
      \<and> classify plain_config init_state ''ADR;HOME:;;12 Main St'' = Inl AttributeError)
   \<and> (matches_rule ''EMAIL;type=INTERNET;type=HOME:a@b.c''
      \<and> classify plain_config init_state ''EMAIL;type=INTERNET;type=HOME:a@b.c''
          = Inr (init_state\<lparr>save := [(''Email: Home'', ''a@b.c'')]\<rparr>)
      \<and> (\<exists>ps. save (init_state\<lparr>save := [(''Email: Home'', ''a@b.c'')]\<rparr>) = save init_state @ ps
                \<and> list_all (\<lambda>p. fst p \<noteq> ''Unknown'') ps))
   \<and> (process_field plain_config init_state ''N:Doe'' = Inl IndexError)
   \<and> (process_field plain_config init_state ''ADR;HOME:;;12 Main St'' = Inl AttributeError)
   \<and> (''BEGIN:VCARD'' @ [newline] @ ''N:Doe'' @ [newline] @ ''END:VCARD''
        \<in> set (split_entries (''BEGIN:VCARD'' @ [newline] @ ''N:Doe'' @ [newline] @ ''END:VCARD''))
      \<and> ''N:Doe'' \<in> set (splitlines (''BEGIN:VCARD'' @ [newline] @ ''N:Doe'' @ [newline] @ ''END:VCARD''))
      \<and> (\<exists>e. parse_vcard plain_config
                 (''BEGIN:VCARD'' @ [newline] @ ''N:Doe'' @ [newline] @ ''END:VCARD'') = Inl e))"
proof -
  let ?card = "''BEGIN:VCARD'' @ [newline] @ ''N:Doe'' @ [newline] @ ''END:VCARD''"
  let ?mail = "''EMAIL;type=INTERNET;type=HOME:a@b.c''"
  let ?st = "init_state\<lparr>save := [(''Email: Home'', ''a@b.c'')]\<rparr>"
  have h1: "startswith ''N:Doe'' ''N:'' \<and> length (split (strip (drop 2 ''N:Doe'')) '';'') < 5"
    by code_simp
  have h1': "startswith ''N:Doe'' ''N:''
      \<and> length (split (strip (drop 2 (strip ''N:Doe''))) '';'') < 5"
    by code_simp
  have h2: "startswith ''N:Doe;John;;;'' ''N:''
      \<and> 5 \<le> length (split (strip (drop 2 ''N:Doe;John;;;'')) '';'')"
    by code_simp
  have v2: "save init_state
       @ nonempty_pair ''Name: Last'' (split (strip (drop 2 ''N:Doe;John;;;'')) '';'' ! 0)
       @ nonempty_pair ''Name: First'' (split (strip (drop 2 ''N:Doe;John;;;'')) '';'' ! 1)
       @ nonempty_pair ''Name: Middle'' (split (strip (drop 2 ''N:Doe;John;;;'')) '';'' ! 2)
       @ nonempty_pair ''Name: Prefix'' (split (strip (drop 2 ''N:Doe;John;;;'')) '';'' ! 3)
       @ nonempty_pair ''Name: Suffix'' (split (strip (drop 2 ''N:Doe;John;;;'')) '';'' ! 4)
     = [(''Name: Last'', ''Doe''), (''Name: First'', ''John'')]"
    by code_simp
  have h3: "startswith ''ADR;HOME:;;12 Main St'' ''ADR;''
      \<and> vcard_comm_type_pref (strip (drop 4 ''ADR;HOME:;;12 Main St'')) = None"
    by code_simp
  have h3': "startswith ''ADR;HOME:;;12 Main St'' ''ADR;''
      \<and> vcard_comm_type_pref (strip (drop 4 (strip ''ADR;HOME:;;12 Main St''))) = None"
    by code_simp
  have h4: "matches_rule ?mail" by code_simp
  have c4: "classify plain_config init_state ?mail = Inr ?st" by code_simp
  have h7: "?card \<in> set (split_entries ?card)" by code_simp
  have h7': "''N:Doe'' \<in> set (splitlines ?card)" by code_simp
  have 1: "classify plain_config init_state ''N:Doe'' = Inl IndexError"
    using h1 malformed_line_raises [of "''N:Doe''" plain_config init_state] by blast
  have 2: "classify plain_config init_state ''N:Doe;John;;;''
          = Inr (init_state\<lparr>save := [(''Name: Last'', ''Doe''), (''Name: First'', ''John'')]\<rparr>)"
    using h2 malformed_line_raises [of "''N:Doe;John;;;''" plain_config init_state]
    by (simp only: v2)
  have 3: "classify plain_config init_state ''ADR;HOME:;;12 Main St'' = Inl AttributeError"
    using h3 malformed_line_raises [of "''ADR;HOME:;;12 Main St''" plain_config init_state] by blast
  have "\<exists>ps. save ?st = save init_state @ ps \<and> (\<forall>p \<in> set ps. fst p \<noteq> ''Unknown'')"
    using h4 c4 malformed_line_raises [where field = ?mail and cfg = plain_config
        and st = init_state and st' = ?st] by blast
  then have 4: "\<exists>ps. save ?st = save init_state @ ps \<and> list_all (\<lambda>p. fst p \<noteq> ''Unknown'') ps"
    by (simp only: list_all_iff)
  have 5: "process_field plain_config s ''N:Doe'' = Inl IndexError" for s
    using h1' malformed_line_raises [where cfg = plain_config and line = "''N:Doe''" and st = s] by blast
  have 6: "process_field plain_config init_state ''ADR;HOME:;;12 Main St'' = Inl AttributeError"
    using h3' malformed_line_raises [where cfg = plain_config and line = "''ADR;HOME:;;12 Main St''"
        and st = init_state] by blast
  have "\<forall>s. \<exists>e. process_field plain_config s ''N:Doe'' = Inl e"
    using 5 by blast
  then have 7: "\<exists>e. parse_vcard plain_config ?card = Inl e"
    using h7 h7' malformed_line_raises [where cfg = plain_config and line = "''N:Doe''"
        and entry = ?card and content = ?card] by blast
  from h1 h2 h3 h4 c4 h7 h7' 1 2 3 4 5 [of init_state] 6 7 show ?thesis
    by (intro conjI) blast+
qed

text \<open>
  C1 as stated fails: the line \<^verbatim>\<open>N:Doe\<close> does not become the pair of \<open>Unknown\<close> and the
  line; classifying it raises \<^verbatim>\<open>IndexError\<close>, and so does parsing a card that holds it.
\<close>

theorem malformed_name_line_aborts:
  "classify plain_config init_state ''N:Doe'' = Inl IndexError
   \<and> classify plain_config init_state ''N:Doe''
       \<noteq> Inr (init_state\<lparr>save := [(''Unknown'', ''N:Doe'')]\<rparr>)
   \<and> parse_vcard plain_config
        (''BEGIN:VCARD'' @ [newline] @ ''N:Doe'' @ [newline] @ ''END:VCARD'' @ [newline])
       = Inl IndexError"
  by code_simp

subsection \<open>The grouped-field resolver\<close>








lemma pref_dup_char: "pref_dup cfg (str_index d 0) p = Inr [] \<or> pref_dup cfg (str_index d 0) p = Inl IndexError"
  by (cases d) (simp_all add: pref_dup_def str_index_def nth_err_def bind_err_def endswith_def)

lemma second_stripped_cases:
  "second_stripped s c = Inl IndexError \<or> (\<exists>v. second_stripped s c = Inr v)"
  by (simp add: second_stripped_def nth_err_def bind_err_def)

lemma resolve_colon_single:
  "resolve_colon cfg pre label fmt data = Inl IndexError
   \<or> (\<exists>d. resolve_colon cfg pre label fmt data = Inr [(pre @ label, fmt d)])"
proof (cases "second_stripped data CHR '':''")
  case (Inl e)
  then have "second_stripped data CHR '':'' = Inl IndexError"
    using second_stripped_cases [of data "CHR '':''"] by auto
  then show ?thesis by (simp add: resolve_colon_def bind_err_def)
next
  case (Inr d)
  then show ?thesis
    using pref_dup_char [of cfg d "(pre @ label @ '' (Preferred)'', fmt d)"]
    by (auto simp: resolve_colon_def bind_err_def)
qed







text \<open>
  C3. The code at the failing input: with preferred duplication on, the grouped lines
  \<^verbatim>\<open>item1.TEL;type=pref:555-000-1111\<close> and \<^verbatim>\<open>item1.X-ABLabel:Work\<close> give the one pair
  \<open>Phone: Work\<close> and no \<open>(Preferred)\<close> duplicate, while the same group with an
  \<^verbatim>\<open>EMAIL;\<close> line gives both pairs. In the branches \<^verbatim>\<open>TEL\<close>, \<^verbatim>\<open>ADR\<close> and \<^verbatim>\<open>URL\<close> the
  test reads the first character of the value, which never ends with \<open>pref\<close>: whatever
  the data, these branches raise \<^verbatim>\<open>IndexError\<close> or append exactly one pair.
\<close>

theorem resolver_preferred_not_duplicated:
  "parse_vcard full_config
     (''BEGIN:VCARD'' @ [newline] @ ''item1.TEL;type=pref:555-000-1111'' @ [newline]
      @ ''item1.X-ABLabel:Work'' @ [newline] @ ''END:VCARD'')
     = Inr [[(''Phone: Work'', ''555-000-1111'')]]
   \<and> parse_vcard full_config
       (''BEGIN:VCARD'' @ [newline] @ ''item1.EMAIL;type=INTERNET;type=pref:a@b.c'' @ [newline]
        @ ''item1.X-ABLabel:Work'' @ [newline] @ ''END:VCARD'')
       = Inr [[(''Email: Work'', ''a@b.c''), (''Email: Work (Preferred)'', ''a@b.c'')]]
   \<and> (resolve_colon cfg pre label fmt data = Inl IndexError
       \<or> (\<exists>d. resolve_colon cfg pre label fmt data = Inr [(pre @ label, fmt d)]))"
proof -
  have 1: "parse_vcard full_config
     (''BEGIN:VCARD'' @ [newline] @ ''item1.TEL;type=pref:555-000-1111'' @ [newline]
      @ ''item1.X-ABLabel:Work'' @ [newline] @ ''END:VCARD'')
     = Inr [[(''Phone: Work'', ''555-000-1111'')]]"
    by code_simp
  have 2: "parse_vcard full_config
       (''BEGIN:VCARD'' @ [newline] @ ''item1.EMAIL;type=INTERNET;type=pref:a@b.c'' @ [newline]
        @ ''item1.X-ABLabel:Work'' @ [newline] @ ''END:VCARD'')
       = Inr [[(''Email: Work'', ''a@b.c''), (''Email: Work (Preferred)'', ''a@b.c'')]]"
    by code_simp
  from 1 2 resolve_colon_single show ?thesis by blast
qed

text \<open>
  C8. An entry that holds the two grouped lines \<^verbatim>\<open>item1.X-ABLabel:_$!<Assistant>!$_\<close>
  and \<^verbatim>\<open>item1.TEL:555-000-1111\<close> yields exactly the pair of \<open>Phone: Assistant\<close> and
  \<open>555-000-1111\<close>, under every configuration: as the entry the splitter hands on, and
  as a card between \<^verbatim>\<open>BEGIN:VCARD\<close> and \<^verbatim>\<open>END:VCARD\<close>.
\<close>

theorem grouped_assistant_phone:
  "parse_entry cfg
     (''item1.X-ABLabel:_$!<Assistant>!$_'' @ [newline] @ ''item1.TEL:555-000-1111''
      @ [newline] @ ''END:VCARD'')
     = Inr [(''Phone: Assistant'', ''555-000-1111'')]
   \<and> parse_vcard cfg
       (''BEGIN:VCARD'' @ [newline] @ ''item1.X-ABLabel:_$!<Assistant>!$_'' @ [newline]
        @ ''item1.TEL:555-000-1111'' @ [newline] @ ''END:VCARD'' @ [newline])
     = Inr [[(''Phone: Assistant'', ''555-000-1111'')]]"
proof (cases cfg)
  case (fields p a ph d)
  have tt: "parse_entry \<lparr>preferred = True, address_enabled = a, phone_enabled = True, debug = d\<rparr>
     (''item1.X-ABLabel:_$!<Assistant>!$_'' @ [newline] @ ''item1.TEL:555-000-1111''
      @ [newline] @ ''END:VCARD'')
     = Inr [(''Phone: Assistant'', ''555-000-1111'')]
   \<and> parse_vcard \<lparr>preferred = True, address_enabled = a, phone_enabled = True, debug = d\<rparr>
       (''BEGIN:VCARD'' @ [newline] @ ''item1.X-ABLabel:_$!<Assistant>!$_'' @ [newline]
        @ ''item1.TEL:555-000-1111'' @ [newline] @ ''END:VCARD'' @ [newline])
     = Inr [[(''Phone: Assistant'', ''555-000-1111'')]]" for a d
    by code_simp
  have tf: "parse_entry \<lparr>preferred = True, address_enabled = a, phone_enabled = False, debug = d\<rparr>
     (''item1.X-ABLabel:_$!<Assistant>!$_'' @ [newline] @ ''item1.TEL:555-000-1111''
      @ [newline] @ ''END:VCARD'')
     = Inr [(''Phone: Assistant'', ''555-000-1111'')]
   \<and> parse_vcard \<lparr>preferred = True, address_enabled = a, phone_enabled = False, debug = d\<rparr>
       (''BEGIN:VCARD'' @ [newline] @ ''item1.X-ABLabel:_$!<Assistant>!$_'' @ [newline]
        @ ''item1.TEL:555-000-1111'' @ [newline] @ ''END:VCARD'' @ [newline])
     = Inr [[(''Phone: Assistant'', ''555-000-1111'')]]" for a d
    by code_simp
  have ft: "parse_entry \<lparr>preferred = False, address_enabled = a, phone_enabled = True, debug = d\<rparr>
     (''item1.X-ABLabel:_$!<Assistant>!$_'' @ [newline] @ ''item1.TEL:555-000-1111''
      @ [newline] @ ''END:VCARD'')
     = Inr [(''Phone: Assistant'', ''555-000-1111'')]
   \<and> parse_vcard \<lparr>preferred = False, address_enabled = a, phone_enabled = True, debug = d\<rparr>
       (''BEGIN:VCARD'' @ [newline] @ ''item1.X-ABLabel:_$!<Assistant>!$_'' @ [newline]
        @ ''item1.TEL:555-000-1111'' @ [newline] @ ''END:VCARD'' @ [newline])
     = Inr [[(''Phone: Assistant'', ''555-000-1111'')]]" for a d
    by code_simp
  have ff: "parse_entry \<lparr>preferred = False, address_enabled = a, phone_enabled = False, debug = d\<rparr>
     (''item1.X-ABLabel:_$!<Assistant>!$_'' @ [newline] @ ''item1.TEL:555-000-1111''
      @ [newline] @ ''END:VCARD'')
     = Inr [(''Phone: Assistant'', ''555-000-1111'')]
   \<and> parse_vcard \<lparr>preferred = False, address_enabled = a, phone_enabled = False, debug = d\<rparr>
       (''BEGIN:VCARD'' @ [newline] @ ''item1.X-ABLabel:_$!<Assistant>!$_'' @ [newline]
        @ ''item1.TEL:555-000-1111'' @ [newline] @ ''END:VCARD'' @ [newline])
     = Inr [[(''Phone: Assistant'', ''555-000-1111'')]]" for a d
    by code_simp
  show ?thesis
    unfolding fields by (cases p; cases ph) (simp_all only: tt tf ft ff)
qed

end
